theory Spec2Isabelle
  imports
    Complex_Main
    "HOL-Library.Char_ord"
    "HOL-Library.List_Lexorder"
    "HOL-Library.Product_Lexorder"
begin

section \<open>Values, dictionaries and the blob codec\<close>

text \<open>
  The location dictionaries that travel through the buffer and the sync queue hold
  Python values. Only the kinds of value that can occur in a JSON document or be bound to
  an SQL statement are told apart; floats are kept as the number they denote (no
  arithmetic is done on them anywhere in the modelled code).
\<close>

datatype pyval =
    PNone
  | PBool bool
  | PInt int
  | PFloat real
  | PStr string
  | PList "pyval list"
  | PDict "(string \<times> pyval) list"

text \<open>
  A Python \<^verbatim>\<open>dict\<close> keeps its keys in insertion order, so it is an association
  list; a real dictionary has no key twice.
\<close>

type_synonym dict = "(string \<times> pyval) list"

type_synonym blob = "char list"

text \<open>\<^verbatim>\<open>d.get(k, default)\<close>\<close>

definition dict_get :: "dict \<Rightarrow> string \<Rightarrow> pyval \<Rightarrow> pyval" where
  "dict_get d k dflt = (case map_of d k of None \<Rightarrow> dflt | Some v \<Rightarrow> v)"

text \<open>\<^verbatim>\<open>d[k] = v\<close>: an existing key keeps its place, a new key goes to the end.\<close>

fun dict_set :: "dict \<Rightarrow> string \<Rightarrow> pyval \<Rightarrow> dict" where
  "dict_set [] k v = [(k, v)]"
| "dict_set ((k', v') # d) k v =
     (if k' = k then (k, v) # d else (k', v') # dict_set d k v)"

text \<open>\<^verbatim>\<open>d.update(e)\<close>: the entries of \<open>e\<close> are stored one after the other.\<close>

fun dict_update :: "dict \<Rightarrow> dict \<Rightarrow> dict" where
  "dict_update d [] = d"
| "dict_update d ((k, v) # e) = dict_update (dict_set d k v) e"

text \<open>
  \<^verbatim>\<open>gzip.compress(json.dumps(extra_data).encode())\<close> on the way in and
  \<^verbatim>\<open>json.loads(gzip.decompress(blob).decode())\<close> on the way out are calls into the
  Python standard library. They are parameters of the model: \<open>compress_json\<close> is
  \<open>None\<close> where \<^verbatim>\<open>json.dumps\<close> raises (a value that is not JSON serialisable),
  \<open>decompress_json\<close> is \<open>None\<close> where decompression or parsing raises.
\<close>

record codec =
  compress_json :: "dict \<Rightarrow> blob option"
  decompress_json :: "blob \<Rightarrow> dict option"

text \<open>
  A small concrete codec, used to run the model on examples: it writes a flat dictionary
  of strings as \<open>key NUL value NUL ...\<close> and refuses every other value, as
  \<^verbatim>\<open>json.dumps\<close> refuses what it cannot serialise.
\<close>

fun nul_dumps :: "dict \<Rightarrow> blob option" where
  "nul_dumps [] = Some []"
| "nul_dumps ((k, PStr v) # d) =
     (case nul_dumps d of None \<Rightarrow> None
      | Some b \<Rightarrow> Some (k @ [CHR 0x00] @ v @ [CHR 0x00] @ b))"
| "nul_dumps ((k, _) # d) = None"

fun nul_fields :: "string \<Rightarrow> blob \<Rightarrow> string list" where
  "nul_fields acc [] = (if acc = [] then [] else [acc])"
| "nul_fields acc (c # cs) =
     (if c = CHR 0x00 then acc # nul_fields [] cs else nul_fields (acc @ [c]) cs)"

fun nul_pairs :: "string list \<Rightarrow> dict option" where
  "nul_pairs [] = Some []"
| "nul_pairs [k] = None"
| "nul_pairs (k # v # fs) =
     (case nul_pairs fs of None \<Rightarrow> None | Some d \<Rightarrow> Some ((k, PStr v) # d))"

definition nul_codec :: codec where
  "nul_codec = \<lparr>compress_json = nul_dumps,
                 decompress_json = (\<lambda>b. nul_pairs (nul_fields [] b))\<rparr>"

section \<open>Wall-clock times and their texts\<close>

text \<open>
  The store compares times as \<^emph>\<open>texts\<close>. SQLite fills the \<^verbatim>\<open>timestamp\<close> column
  from \<^verbatim>\<open>CURRENT_TIMESTAMP\<close>, the UTC time written \<^verbatim>\<open>YYYY-MM-DD HH:MM:SS\<close>;
  \<^verbatim>\<open>cleanup_old_data\<close> binds \<^verbatim>\<open>cutoff_date.isoformat()\<close>, the local time written
  \<^verbatim>\<open>YYYY-MM-DDTHH:MM:SS\<close>, followed by \<^verbatim>\<open>.ffffff\<close> when the microsecond is not
  zero. A \<^verbatim>\<open>datetime\<close> is the record of its fields, as in Python.
\<close>

record datetime =
  year :: nat
  month :: nat
  day :: nat
  hour :: nat
  minute :: nat
  second :: nat
  microsecond :: nat

definition digit_char :: "nat \<Rightarrow> char" where
  "digit_char n = ''0123456789'' ! (n mod 10)"

text \<open>
  Decimal texts of fixed width with leading zeros (\<^verbatim>\<open>%02d\<close>, \<^verbatim>\<open>%04d\<close>,
  \<^verbatim>\<open>%06d\<close>), for numbers of at most that many digits, which every field of a valid
  \<^verbatim>\<open>datetime\<close> is.
\<close>

definition pad2 :: "nat \<Rightarrow> string" where
  "pad2 n = [digit_char (n div 10), digit_char n]"

definition pad4 :: "nat \<Rightarrow> string" where
  "pad4 n = pad2 (n div 100) @ pad2 n"

definition pad6 :: "nat \<Rightarrow> string" where
  "pad6 n = pad2 (n div 10000) @ pad4 n"

definition date_text :: "datetime \<Rightarrow> string" where
  "date_text t = pad4 (year t) @ ''-'' @ pad2 (month t) @ ''-'' @ pad2 (day t)"

definition time_text :: "datetime \<Rightarrow> string" where
  "time_text t = pad2 (hour t) @ '':'' @ pad2 (minute t) @ '':'' @ pad2 (second t)"

text \<open>The text SQLite stores for \<^verbatim>\<open>CURRENT_TIMESTAMP\<close> at UTC time \<open>t\<close>.\<close>

definition sqlite_timestamp :: "datetime \<Rightarrow> string" where
  "sqlite_timestamp t = date_text t @ '' '' @ time_text t"

text \<open>\<^verbatim>\<open>t.isoformat()\<close>\<close>

definition isoformat :: "datetime \<Rightarrow> string" where
  "isoformat t =
     date_text t @ ''T'' @ time_text t @
     (if microsecond t = 0 then [] else ''.'' @ pad6 (microsecond t))"

text \<open>
  \<^verbatim>\<open>t - timedelta(days=n)\<close> moves the date by whole days and keeps the time of day.
  The date arithmetic is that of the proleptic Gregorian calendar, through the day
  number of a date (1 for 0001-01-01, at most 3652059 for 9999-12-31); outside that range
  Python raises \<^verbatim>\<open>OverflowError\<close>.
\<close>

definition is_leap :: "nat \<Rightarrow> bool" where
  "is_leap y \<longleftrightarrow> y mod 4 = 0 \<and> (y mod 100 \<noteq> 0 \<or> y mod 400 = 0)"

definition days_before_year :: "nat \<Rightarrow> nat" where
  "days_before_year y = (y - 1) * 365 + (y - 1) div 4 - (y - 1) div 100 + (y - 1) div 400"

definition days_before_month :: "nat \<Rightarrow> nat \<Rightarrow> nat" where
  "days_before_month y m =
     [0, 0, 31, 59, 90, 120, 151, 181, 212, 243, 273, 304, 334] ! (m mod 13) +
     (if 2 < m \<and> is_leap y then 1 else 0)"

definition ymd2ord :: "nat \<Rightarrow> nat \<Rightarrow> nat \<Rightarrow> nat" where
  "ymd2ord y m d = days_before_year y + days_before_month y m + d"

text \<open>
  From a day number back to a date, by the cycles of 400, 100, 4 and 1 years, as
  Python's \<^verbatim>\<open>date.fromordinal\<close> does.
\<close>

definition ord2ymd :: "nat \<Rightarrow> nat \<times> nat \<times> nat" where
  "ord2ymd ordinal =
     (let n0 = ordinal - 1;
          n400 = n0 div 146097; r400 = n0 mod 146097;
          n100 = r400 div 36524; r100 = r400 mod 36524;
          n4 = r100 div 1461; r4 = r100 mod 1461;
          n1 = r4 div 365; n = r4 mod 365;
          y = n400 * 400 + 1 + n100 * 100 + n4 * 4 + n1
      in if n1 = 4 \<or> n100 = 4 then (y - 1, 12, 31)
         else
           let leapyear = (n1 = 3 \<and> (n4 \<noteq> 24 \<or> n100 = 3));
               m = (n + 50) div 32;
               preceding =
                 [0, 0, 31, 59, 90, 120, 151, 181, 212, 243, 273, 304, 334] ! (m mod 13) +
                 (if 2 < m \<and> leapyear then 1 else 0)
           in if n < preceding
              then (y, m - 1,
                    n + ([0, 31, 28, 31, 30, 31, 30, 31, 31, 30, 31, 30, 31] ! ((m - 1) mod 13) +
                         (if m - 1 = 2 \<and> leapyear then 1 else 0)) - preceding + 1)
              else (y, m, n - preceding + 1))"

definition minus_days :: "datetime \<Rightarrow> int \<Rightarrow> datetime option" where
  "minus_days t n =
     (let ord = int (ymd2ord (year t) (month t) (day t)) - n
      in if ord < 1 \<or> 3652059 < ord then None
         else (case ord2ymd (nat ord) of
                 (y, m, d) \<Rightarrow> Some (t\<lparr>year := y, month := m, day := d\<rparr>)))"

section \<open>The SQLite buffer (\<^verbatim>\<open>data_buffer.py\<close>)\<close>

text \<open>
  One row of table \<^verbatim>\<open>gps_buffer\<close>. The columns filled from the location hold the
  values that \<^verbatim>\<open>insert_location\<close> binds to the \<^verbatim>\<open>INSERT\<close>; \<open>synced\<close> is the
  column that only ever holds 0 or 1.
\<close>

record row =
  row_id :: int
  timestamp :: string
  device_id :: pyval
  latitude :: pyval
  longitude :: pyval
  speed :: pyval
  heading :: pyval
  altitude :: pyval
  satellites :: pyval
  hdop :: pyval
  synced :: bool
  priority :: int
  compressed_data :: "blob option"
  retry_count :: nat

text \<open>
  The \<^verbatim>\<open>DataBuffer\<close> object and its database: \<open>conn_open\<close> says that
  \<^verbatim>\<open>self.conn\<close> is a connection (it is \<^verbatim>\<open>None\<close> before \<^verbatim>\<open>initialize\<close> and after
  \<^verbatim>\<open>close\<close>, and every method then fails in its first statement and returns through
  its \<^verbatim>\<open>except\<close> branch); \<open>rows\<close> is the table in rowid order, as the statements
  executed on this connection see it, with the changes of a transaction that the
  connection has not committed yet; \<open>seq\<close> is the largest id ever given out, which
  \<^verbatim>\<open>AUTOINCREMENT\<close> keeps so that no id is used twice; \<open>vacuums\<close> counts the
  \<^verbatim>\<open>VACUUM\<close> statements executed; \<open>max_variables\<close> is the number of parameters that
  SQLite accepts in one statement (\<^verbatim>\<open>SQLITE_LIMIT_VARIABLE_NUMBER\<close>: 999 before
  SQLite 3.32, 32766 since, unless the library was built otherwise).
\<close>

record store =
  conn_open :: bool
  rows :: "row list"
  seq :: int
  vacuums :: nat
  max_variables :: nat

definition new_store :: store where
  "new_store = \<lparr>conn_open = True, rows = [], seq = 0, vacuums = 0,
                max_variables = 32766\<rparr>"

definition close :: "store \<Rightarrow> store" where
  "close s = s\<lparr>conn_open := False\<rparr>"

text \<open>The retry bound that \<^verbatim>\<open>get_unsynced_batch\<close> and \<^verbatim>\<open>get_stats\<close> write as 5.\<close>

definition max_retry :: nat where
  "max_retry = 5"

text \<open>
  The keys that \<^verbatim>\<open>insert_location\<close> leaves out of the extra data, and the extra data:
  every other entry of the location.
\<close>

definition core_keys :: "string list" where
  "core_keys = [''latitude'', ''longitude'', ''speed'', ''heading'', ''timestamp'']"

definition extra_data :: "dict \<Rightarrow> dict" where
  "extra_data location = filter (\<lambda>(k, v). k \<notin> set core_keys) location"

text \<open>
  What the \<^verbatim>\<open>sqlite3\<close> module can bind to a statement: \<^verbatim>\<open>None\<close>, texts, floats
  and integers of 64 bits, but no list or dictionary.
\<close>

definition sqlite_integer :: "int \<Rightarrow> bool" where
  "sqlite_integer i \<longleftrightarrow> - (2 ^ 63) \<le> i \<and> i < 2 ^ 63"

fun bindable :: "pyval \<Rightarrow> bool" where
  "bindable (PList _) = False"
| "bindable (PDict _) = False"
| "bindable (PInt i) = sqlite_integer i"
| "bindable _ = True"

text \<open>
  \<^verbatim>\<open>insert_location(location, priority)\<close> at UTC time \<open>now\<close>. The result is the
  Boolean the method returns, with the store after the call. It returns \<open>False\<close>,
  and inserts nothing, when the connection is missing, when \<^verbatim>\<open>json.dumps\<close> raises,
  when \<^verbatim>\<open>location['latitude']\<close> or \<^verbatim>\<open>location['longitude']\<close> raises
  \<^verbatim>\<open>KeyError\<close>, when a value cannot be bound, and when \<^verbatim>\<open>None\<close> is bound to one of
  the columns declared \<^verbatim>\<open>NOT NULL\<close>. The conversions that SQLite applies to a value
  on its way into a typed column are not modelled: a column holds the value bound to it.
\<close>

definition insert_location ::
    "codec \<Rightarrow> datetime \<Rightarrow> store \<Rightarrow> dict \<Rightarrow> int \<Rightarrow> bool \<times> store" where
  "insert_location C now s location prio =
     (if \<not> conn_open s then (False, s)
      else
        case (if extra_data location \<noteq> []
              then map_option Some (compress_json C (extra_data location))
              else Some None) of
          None \<Rightarrow> (False, s)
        | Some compressed \<Rightarrow>
            (case (map_of location ''latitude'', map_of location ''longitude'') of
               (Some lat, Some lon) \<Rightarrow>
                 let r = \<lparr>row_id = seq s + 1,
                          timestamp = sqlite_timestamp now,
                          device_id = dict_get location ''device_id'' (PStr ''unknown''),
                          latitude = lat,
                          longitude = lon,
                          speed = dict_get location ''speed'' (PInt 0),
                          heading = dict_get location ''heading'' (PInt 0),
                          altitude = dict_get location ''altitude'' (PInt 0),
                          satellites = dict_get location ''satellites'' (PInt 0),
                          hdop = dict_get location ''hdop'' (PInt 0),
                          synced = False,
                          priority = prio,
                          compressed_data = compressed,
                          retry_count = 0\<rparr>
                 in if list_all bindable
                         [device_id r, latitude r, longitude r, speed r, heading r,
                          altitude r, satellites r, hdop r, PInt prio]
                       \<and> device_id r \<noteq> PNone \<and> latitude r \<noteq> PNone \<and> longitude r \<noteq> PNone
                    then (True, s\<lparr>rows := rows s @ [r], seq := seq s + 1\<rparr>)
                    else (False, s)
             | _ \<Rightarrow> (False, s)))"

text \<open>
  The query of \<^verbatim>\<open>get_unsynced_batch\<close>:
  \<^verbatim>\<open>WHERE synced = 0 AND retry_count < 5 ORDER BY priority DESC, timestamp ASC LIMIT ?\<close>.
  The timestamps are compared as texts. SQL leaves the order of rows with equal
  priority and timestamp open; they are taken in rowid order here, the order in which
  the index on \<^verbatim>\<open>(synced, priority DESC, timestamp)\<close> yields them. A negative
  \<^verbatim>\<open>LIMIT\<close> is no limit in SQLite.
\<close>

definition claimable :: "row \<Rightarrow> bool" where
  "claimable r \<longleftrightarrow> \<not> synced r \<and> retry_count r < max_retry"

text \<open>\<^verbatim>\<open>ORDER BY priority DESC, timestamp ASC\<close> as a relation between two rows.\<close>

definition batch_order :: "row \<Rightarrow> row \<Rightarrow> bool" where
  "batch_order a b \<longleftrightarrow>
     priority b < priority a \<or> (priority a = priority b \<and> timestamp a \<le> timestamp b)"

definition sql_limit :: "int \<Rightarrow> 'a list \<Rightarrow> 'a list" where
  "sql_limit n xs = (if n < 0 then xs else take (nat n) xs)"

definition select_unsynced :: "store \<Rightarrow> int \<Rightarrow> row list" where
  "select_unsynced s batch_size =
     sql_limit batch_size
       (sort_key (\<lambda>r. (- priority r, timestamp r)) (filter claimable (rows s)))"

text \<open>
  The dictionary built for one row: the ten column entries, then \<^verbatim>\<open>data.update(extra)\<close>
  when the blob is there and not empty. \<open>None\<close> when decompressing or parsing raises.
\<close>

definition row_columns :: "row \<Rightarrow> dict" where
  "row_columns r =
     [(''id'', PInt (row_id r)),
      (''timestamp'', PStr (timestamp r)),
      (''device_id'', device_id r),
      (''latitude'', latitude r),
      (''longitude'', longitude r),
      (''speed'', speed r),
      (''heading'', heading r),
      (''altitude'', altitude r),
      (''satellites'', satellites r),
      (''hdop'', hdop r)]"

definition row_data :: "codec \<Rightarrow> row \<Rightarrow> dict option" where
  "row_data C r =
     (let data = row_columns r
      in case compressed_data r of
           None \<Rightarrow> Some data
         | Some b \<Rightarrow>
             if b = [] then Some data
             else (case decompress_json C b of
                     None \<Rightarrow> None
                   | Some extra \<Rightarrow> Some (dict_update data extra)))"

text \<open>The loop over the fetched rows; an exception in one iteration ends it.\<close>

fun collect_rows :: "codec \<Rightarrow> row list \<Rightarrow> dict list option" where
  "collect_rows C [] = Some []"
| "collect_rows C (r # rs) =
     (case row_data C r of
        None \<Rightarrow> None
      | Some d \<Rightarrow> (case collect_rows C rs of None \<Rightarrow> None | Some ds \<Rightarrow> Some (d # ds)))"

text \<open>
  \<^verbatim>\<open>get_unsynced_batch(batch_size)\<close>: the \<^verbatim>\<open>except\<close> branch returns the empty
  list. It is reached without a connection, when \<^verbatim>\<open>batch_size\<close> is no integer of
  64 bits (\<^verbatim>\<open>execute\<close> raises \<^verbatim>\<open>OverflowError\<close> on binding it), and when a blob
  cannot be read back. The call changes nothing in the store.
\<close>

definition get_unsynced_batch :: "codec \<Rightarrow> store \<Rightarrow> int \<Rightarrow> dict list" where
  "get_unsynced_batch C s batch_size =
     (if \<not> conn_open s then []
      else if \<not> sqlite_integer batch_size then []
      else case collect_rows C (select_unsynced s batch_size) of
             None \<Rightarrow> []
           | Some ds \<Rightarrow> ds)"

text \<open>
  What can go wrong inside SQLite while \<^verbatim>\<open>mark_synced\<close> or \<^verbatim>\<open>increment_retry\<close>
  runs, as an input of the call. Nothing goes wrong; or the call fails with the table
  as it was, because \<^verbatim>\<open>cursor.execute\<close> raises (the database is locked by another
  connection, the disk fails) or because \<^verbatim>\<open>commit\<close> fails with an error on which
  SQLite itself rolls the transaction back; or the \<^verbatim>\<open>UPDATE\<close> is executed and
  \<^verbatim>\<open>self.conn.commit()\<close> raises \<^verbatim>\<open>database is locked\<close>, another connection
  holding a lock on the file. Neither method rolls back: after such a \<^verbatim>\<open>commit\<close>
  the transaction stays open, the connection goes on seeing the updated rows, and the
  next \<^verbatim>\<open>commit\<close> that succeeds on it writes them to the file. The other methods
  are modelled on a database that answers: \<^verbatim>\<open>insert_location\<close>,
  \<^verbatim>\<open>get_unsynced_batch\<close>, \<^verbatim>\<open>cleanup_old_data\<close> and \<^verbatim>\<open>get_stats\<close> fail here
  for the reasons that their own inputs give.
\<close>

datatype sql_fault = NoFault | ExecuteFails | CommitBusy

text \<open>
  The ids can be bound to the placeholders of \<^verbatim>\<open>WHERE id IN (?,...,?)\<close>: there are
  no more of them than SQLite accepts parameters (\<^verbatim>\<open>OperationalError\<close> otherwise), and
  each is an integer of 64 bits (\<^verbatim>\<open>OverflowError\<close> otherwise). The empty list gives
  \<^verbatim>\<open>IN ()\<close>, which SQLite accepts and which matches no row.
\<close>

definition bindable_ids :: "store \<Rightarrow> int list \<Rightarrow> bool" where
  "bindable_ids s ids \<longleftrightarrow> length ids \<le> max_variables s \<and> list_all sqlite_integer ids"

text \<open>
  \<^verbatim>\<open>mark_synced(ids)\<close>: \<^verbatim>\<open>UPDATE gps_buffer SET synced = 1 WHERE id IN (ids)\<close>, then
  \<^verbatim>\<open>commit\<close>. The result is the Boolean returned, with the store after the call. The
  method returns \<open>False\<close> from its \<^verbatim>\<open>except\<close> branch when there is no connection,
  when the ids cannot be bound and when \<^verbatim>\<open>execute\<close> raises, with the table as it
  was; and when \<^verbatim>\<open>commit\<close> raises on a locked database, with the rows updated.
\<close>

definition mark_synced :: "sql_fault \<Rightarrow> store \<Rightarrow> int list \<Rightarrow> bool \<times> store" where
  "mark_synced fault s ids =
     (if \<not> conn_open s then (False, s)
      else if \<not> bindable_ids s ids then (False, s)
      else if fault = ExecuteFails then (False, s)
      else
        let s' = s\<lparr>rows := map (\<lambda>r. if row_id r \<in> set ids then r\<lparr>synced := True\<rparr> else r)
                                (rows s)\<rparr>
        in if fault = CommitBusy then (False, s') else (True, s'))"

text \<open>
  \<^verbatim>\<open>increment_retry(ids)\<close>:
  \<^verbatim>\<open>UPDATE gps_buffer SET retry_count = retry_count + 1 WHERE id IN (ids)\<close>, then
  \<^verbatim>\<open>commit\<close>, with the same failures.
\<close>

definition increment_retry :: "sql_fault \<Rightarrow> store \<Rightarrow> int list \<Rightarrow> bool \<times> store" where
  "increment_retry fault s ids =
     (if \<not> conn_open s then (False, s)
      else if \<not> bindable_ids s ids then (False, s)
      else if fault = ExecuteFails then (False, s)
      else
        let s' = s\<lparr>rows := map (\<lambda>r. if row_id r \<in> set ids
                                      then r\<lparr>retry_count := retry_count r + 1\<rparr> else r)
                                (rows s)\<rparr>
        in if fault = CommitBusy then (False, s') else (True, s'))"

text \<open>
  \<^verbatim>\<open>cleanup_old_data(days)\<close> at local time \<open>now\<close>:
  \<^verbatim>\<open>DELETE FROM gps_buffer WHERE synced = 1 AND timestamp < ?\<close> with the text of
  \<^verbatim>\<open>(datetime.now() - timedelta(days=days)).isoformat()\<close>, then \<^verbatim>\<open>VACUUM\<close> when a
  row was deleted. The result is the number returned; it is 0 from the \<^verbatim>\<open>except\<close>
  branch.
\<close>

definition expired :: "string \<Rightarrow> row \<Rightarrow> bool" where
  "expired cutoff r \<longleftrightarrow> synced r \<and> timestamp r < cutoff"

definition cleanup_old_data :: "datetime \<Rightarrow> store \<Rightarrow> int \<Rightarrow> int \<times> store" where
  "cleanup_old_data now s days =
     (if \<not> conn_open s then (0, s)
      else case minus_days now days of
             None \<Rightarrow> (0, s)
           | Some cutoff_date \<Rightarrow>
               let deleted = length (filter (expired (isoformat cutoff_date)) (rows s));
                   s' = s\<lparr>rows := filter (\<lambda>r. \<not> expired (isoformat cutoff_date) r) (rows s)\<rparr>
               in if 0 < deleted then (int deleted, s'\<lparr>vacuums := vacuums s' + 1\<rparr>)
                  else (int deleted, s'))"

text \<open>
  \<^verbatim>\<open>get_stats()\<close>: four counts under the keys \<^verbatim>\<open>total\<close>, \<^verbatim>\<open>unsynced\<close>,
  \<^verbatim>\<open>failed\<close> and \<^verbatim>\<open>size_bytes\<close>; the empty dictionary from the \<^verbatim>\<open>except\<close>
  branch. The size of the database file (page count times page size) is read from
  SQLite and is a parameter here.
\<close>

definition get_stats :: "int \<Rightarrow> store \<Rightarrow> dict" where
  "get_stats size_bytes s =
     (if \<not> conn_open s then []
      else [(''total'', PInt (int (length (rows s)))),
            (''unsynced'', PInt (int (length (filter (\<lambda>r. \<not> synced r) (rows s))))),
            (''failed'', PInt (int (length (filter (\<lambda>r. max_retry \<le> retry_count r) (rows s))))),
            (''size_bytes'', PInt size_bytes)])"

subsection \<open>Sequences of store operations\<close>

text \<open>
  The calls a client of the buffer can make, each with the inputs it reads from its
  environment (the clock, the size of the database file, what goes wrong inside SQLite),
  and the store after a sequence of calls.
\<close>

datatype store_op =
    InsertLocation dict int datetime
  | GetUnsyncedBatch int
  | MarkSynced sql_fault "int list"
  | IncrementRetry sql_fault "int list"
  | CleanupOldData int datetime
  | GetStats int

fun apply_op :: "codec \<Rightarrow> store \<Rightarrow> store_op \<Rightarrow> store" where
  "apply_op C s (InsertLocation location prio now) = snd (insert_location C now s location prio)"
| "apply_op C s (GetUnsyncedBatch n) = s"
| "apply_op C s (MarkSynced fault ids) = snd (mark_synced fault s ids)"
| "apply_op C s (IncrementRetry fault ids) = snd (increment_retry fault s ids)"
| "apply_op C s (CleanupOldData days now) = snd (cleanup_old_data now s days)"
| "apply_op C s (GetStats size_bytes) = s"

fun run_ops :: "codec \<Rightarrow> store \<Rightarrow> store_op list \<Rightarrow> store" where
  "run_ops C s [] = s"
| "run_ops C s (op # ops) = run_ops C (apply_op C s op) ops"

text \<open>
  The id is the primary key, given out by \<^verbatim>\<open>AUTOINCREMENT\<close>: no two rows carry the
  same id, and no row an id beyond the largest given out so far.
\<close>

definition ids_ok :: "store \<Rightarrow> bool" where
  "ids_ok s \<longleftrightarrow> distinct (map row_id (rows s)) \<and> list_all (\<lambda>r. row_id r \<le> seq s) (rows s)"

text \<open>
  An operation applies a retry to the id \<open>i\<close>: it is a call of \<^verbatim>\<open>increment_retry\<close>
  that names \<open>i\<close> and whose \<^verbatim>\<open>UPDATE\<close> is executed on the store \<open>s\<close>. A call that
  names \<open>i\<close> next to an id that cannot be bound applies nothing. \<open>retries_of\<close> is how
  many operations of a sequence apply a retry to \<open>i\<close>; none of the operations changes
  the connection or the limit of SQLite that this depends on.
\<close>

fun applies_retry :: "store \<Rightarrow> int \<Rightarrow> store_op \<Rightarrow> bool" where
  "applies_retry s i (IncrementRetry fault ids) =
     (conn_open s \<and> bindable_ids s ids \<and> fault \<noteq> ExecuteFails \<and> i \<in> set ids)"
| "applies_retry s i _ = False"

definition retries_of :: "store \<Rightarrow> int \<Rightarrow> store_op list \<Rightarrow> nat" where
  "retries_of s i ops = length (filter (applies_retry s i) ops)"

text \<open>Every blob in the table can be read back.\<close>

definition decodable :: "codec \<Rightarrow> store \<Rightarrow> bool" where
  "decodable C s \<longleftrightarrow> list_all (\<lambda>r. row_data C r \<noteq> None) (rows s)"

text \<open>
  The codec reads back what it writes for the extra data of a location. A location
  without extra data asks nothing of the codec: its row gets no blob.
\<close>

definition reads_back :: "codec \<Rightarrow> dict \<Rightarrow> bool" where
  "reads_back C location \<longleftrightarrow>
     (extra_data location = [] \<or>
      (case compress_json C (extra_data location) of
         None \<Rightarrow> True
       | Some b \<Rightarrow> b \<noteq> [] \<and> decompress_json C b = Some (extra_data location)))"

section \<open>The sync worker (\<^verbatim>\<open>firebase_sync.py\<close>)\<close>

text \<open>
  The part of the configuration that \<^verbatim>\<open>sync_worker\<close> reads with
  \<^verbatim>\<open>config.get(key, default)\<close>; \<open>None\<close> is a missing key.
\<close>

record sync_config =
  cfg_batch_size :: "int option"
  cfg_sync_interval :: "int option"

definition batch_size_of :: "sync_config \<Rightarrow> int" where
  "batch_size_of cfg = (case cfg_batch_size cfg of None \<Rightarrow> 100 | Some n \<Rightarrow> n)"

definition sync_interval_of :: "sync_config \<Rightarrow> int" where
  "sync_interval_of cfg = (case cfg_sync_interval cfg of None \<Rightarrow> 30 | Some n \<Rightarrow> n)"

text \<open>
  An entry of \<^verbatim>\<open>sync_queue\<close>. Its \<^verbatim>\<open>'timestamp'\<close> is written and never read, and
  is left out.
\<close>

record queue_item =
  item_data :: dict
  attempts :: int

text \<open>
  The state of the worker: the queue, the local variables \<^verbatim>\<open>batch\<close> and
  \<^verbatim>\<open>last_sync\<close> of \<^verbatim>\<open>sync_worker\<close>, and the calls of \<^verbatim>\<open>batch_upload\<close> made so
  far, each with the batch it was given and what it returned. The worker reads the
  local clock and only ever subtracts two readings, so a reading is the number of
  microseconds since some fixed instant.
\<close>

record worker =
  sync_queue :: "queue_item list"
  batch :: "dict list"
  last_sync :: int
  uploads :: "(dict list \<times> bool) list"

definition new_worker :: "int \<Rightarrow> worker" where
  "new_worker now = \<lparr>sync_queue = [], batch = [], last_sync = now, uploads = []\<rparr>"

text \<open>\<^verbatim>\<open>queue_data(data)\<close>\<close>

definition queue_data :: "worker \<Rightarrow> dict \<Rightarrow> worker" where
  "queue_data w data = w\<lparr>sync_queue := sync_queue w @ [\<lparr>item_data = data, attempts = 0\<rparr>]\<rparr>"

text \<open>
  \<^verbatim>\<open>(datetime.now() - last_sync).seconds\<close>: the seconds field of the normalised
  \<^verbatim>\<open>timedelta\<close>, which lies between 0 and 86399 (the whole days are in its
  \<^verbatim>\<open>days\<close> field).
\<close>

definition elapsed_seconds :: "int \<Rightarrow> int \<Rightarrow> int" where
  "elapsed_seconds since now = ((now - since) mod 86400000000) div 1000000"

text \<open>
  What one pass through the loop body reads from outside: the clock when
  \<^verbatim>\<open>should_sync\<close> is computed, the result of \<^verbatim>\<open>batch_upload\<close> if it is called, and
  the clock when \<^verbatim>\<open>last_sync\<close> is set after the upload.
\<close>

record pass =
  clock :: int
  upload_ok :: bool
  clock_after :: int

text \<open>
  One pass through the body of the \<^verbatim>\<open>while\<close> loop. \<^verbatim>\<open>sync_queue.get(timeout=1)\<close>
  returns the head of the queue, or raises \<^verbatim>\<open>queue.Empty\<close> when the queue has stayed
  empty for a second.
\<close>

definition requeue :: "queue_item \<Rightarrow> dict \<Rightarrow> queue_item" where
  "requeue item data = \<lparr>item_data = data, attempts = attempts item + 1\<rparr>"

definition worker_pass :: "sync_config \<Rightarrow> pass \<Rightarrow> worker \<Rightarrow> worker" where
  "worker_pass cfg p w =
     (case sync_queue w of
        [] \<Rightarrow>
          if batch w \<noteq> [] then
            (if upload_ok p
             then w\<lparr>batch := [], last_sync := clock_after p,
                    uploads := uploads w @ [(batch w, True)]\<rparr>
             else w\<lparr>uploads := uploads w @ [(batch w, False)]\<rparr>)
          else w
      | item # rest \<Rightarrow>
          let b = batch w @ [item_data item];
              should_sync =
                (batch_size_of cfg \<le> int (length b) \<or>
                 sync_interval_of cfg \<le> elapsed_seconds (last_sync w) (clock p))
          in if should_sync \<and> b \<noteq> [] then
               (if upload_ok p
                then w\<lparr>sync_queue := rest, batch := [], last_sync := clock_after p,
                       uploads := uploads w @ [(b, True)]\<rparr>
                else w\<lparr>sync_queue := rest @ map (requeue item) b, batch := [],
                       uploads := uploads w @ [(b, False)]\<rparr>)
             else w\<lparr>sync_queue := rest, batch := b\<rparr>)"

fun worker_run :: "sync_config \<Rightarrow> pass list \<Rightarrow> worker \<Rightarrow> worker" where
  "worker_run cfg [] w = w"
| "worker_run cfg (p # ps) w = worker_run cfg ps (worker_pass cfg p w)"

text \<open>The pass flushed: it called \<^verbatim>\<open>batch_upload\<close>.\<close>

definition flushes :: "sync_config \<Rightarrow> pass \<Rightarrow> worker \<Rightarrow> bool" where
  "flushes cfg p w \<longleftrightarrow> uploads (worker_pass cfg p w) \<noteq> uploads w"

section \<open>The application (\<^verbatim>\<open>main.py\<close>)\<close>

text \<open>
  \<^verbatim>\<open>FleetTracker\<close> owns the buffer and the sync service. \<^verbatim>\<open>handle_gps_update\<close>
  stores the device id in the location, inserts it into the buffer with the default
  priority and puts it on the sync queue. The sync worker holds no reference to the
  buffer: a pass of the worker is a step of the application that changes the worker
  only.
\<close>

record fleet =
  data_buffer :: store
  firebase_sync :: worker

definition handle_gps_update ::
    "codec \<Rightarrow> string \<Rightarrow> datetime \<Rightarrow> fleet \<Rightarrow> dict \<Rightarrow> fleet" where
  "handle_gps_update C dev now f location =
     (let location' = dict_set location ''device_id'' (PStr dev)
      in \<lparr>data_buffer = snd (insert_location C now (data_buffer f) location' 0),
          firebase_sync = queue_data (firebase_sync f) location'\<rparr>)"

definition sync_pass :: "sync_config \<Rightarrow> pass \<Rightarrow> fleet \<Rightarrow> fleet" where
  "sync_pass cfg p f = f\<lparr>firebase_sync := worker_pass cfg p (firebase_sync f)\<rparr>"

section \<open>Sample data\<close>

text \<open>
  Concrete inputs on which the model is run below: a buffer with three pending rows of
  priorities 0, 0 and 5, inserted in that order ten seconds apart.
\<close>

definition sample_row :: "int \<Rightarrow> string \<Rightarrow> int \<Rightarrow> row" where
  "sample_row i ts p =
     \<lparr>row_id = i, timestamp = ts, device_id = PStr ''fleet-001'',
      latitude = PFloat 51.5, longitude = PFloat 0.25,
      speed = PInt 0, heading = PInt 0, altitude = PInt 0, satellites = PInt 0, hdop = PInt 0,
      synced = False, priority = p, compressed_data = None, retry_count = 0\<rparr>"

definition sample_store :: store where
  "sample_store =
     \<lparr>conn_open = True,
      rows = [sample_row 1 ''2024-01-08 23:00:00'' 0,
              sample_row 2 ''2024-01-08 23:00:10'' 0,
              sample_row 3 ''2024-01-08 23:00:20'' 5],
      seq = 3, vacuums = 0, max_variables = 32766\<rparr>"

text \<open>
  Five calls of \<^verbatim>\<open>increment_retry\<close> that apply a retry to row 1, among other calls;
  the third call names row 1 next to an id of more than 64 bits and applies nothing.
\<close>

definition five_retries :: "store_op list" where
  "five_retries =
     [IncrementRetry NoFault [1], IncrementRetry NoFault [1, 2],
      IncrementRetry NoFault [1, 2 ^ 63], GetStats 4096, IncrementRetry NoFault [1],
      IncrementRetry CommitBusy [1], IncrementRetry NoFault [1]]"


text \<open>
  A fix as the GPS tracker reports it, with one more attribute, and a fix that brings
  an attribute named \<^verbatim>\<open>id\<close>; both arrive at 23:00:00 UTC on 8 January 2024.
\<close>

definition utc_sample :: datetime where
  "utc_sample = \<lparr>year = 2024, month = 1, day = 8, hour = 23, minute = 0, second = 0,
                  microsecond = 0\<rparr>"

definition sample_fix :: dict where
  "sample_fix = [(''latitude'', PFloat 51.5), (''longitude'', PFloat 0.25),
                 (''timestamp'', PStr ''2024-01-08T23:00:00''),
                 (''heading_raw'', PStr ''123.4'')]"

definition colliding_fix :: dict where
  "colliding_fix = [(''latitude'', PFloat 51.5), (''longitude'', PFloat 0.25),
                    (''id'', PStr ''77'')]"

text \<open>
  The buffer after three inserts of the sample fix into a new buffer, with priorities
  0, 0 and 5.
\<close>

definition three_s1 :: store where
  "three_s1 = snd (insert_location nul_codec utc_sample new_store sample_fix 0)"

definition three_s2 :: store where
  "three_s2 = snd (insert_location nul_codec utc_sample three_s1 sample_fix 0)"

definition three_s3 :: store where
  "three_s3 = snd (insert_location nul_codec utc_sample three_s2 sample_fix 5)"

text \<open>The buffer after the insert of the fix that brings its own \<^verbatim>\<open>id\<close>.\<close>

definition collided :: store where
  "collided = snd (insert_location nul_codec utc_sample new_store colliding_fix 0)"

text \<open>
  A buffer whose one row was inserted at 23:00:00 UTC on 8 January 2024 and has been
  delivered, and a local clock that shows 01:00:00 on 15 January 2024. Whatever the
  time zone of the device (local time is at most 14 hours ahead of UTC and at most 12
  hours behind), the row is then between 5 days 12 hours and 6 days 14 hours old.
\<close>

definition delivered_store :: store where
  "delivered_store =
     \<lparr>conn_open = True,
      rows = [(sample_row 1 ''2024-01-08 23:00:00'' 0)\<lparr>synced := True\<rparr>],
      seq = 1, vacuums = 0, max_variables = 32766\<rparr>"

definition local_sample :: datetime where
  "local_sample = \<lparr>year = 2024, month = 1, day = 15, hour = 1, minute = 0, second = 0,
                    microsecond = 0\<rparr>"

text \<open>
  A device five hours behind UTC: a row inserted and delivered at 19:30 local time on
  1 January 2024 (00:30:00 UTC on 2 January), and the local clock at 20:00:00 that
  evening.
\<close>

definition evening_store :: store where
  "evening_store =
     \<lparr>conn_open = True,
      rows = [(sample_row 1 ''2024-01-02 00:30:00'' 0)\<lparr>synced := True\<rparr>],
      seq = 1, vacuums = 0, max_variables = 32766\<rparr>"

definition local_evening :: datetime where
  "local_evening = \<lparr>year = 2024, month = 1, day = 1, hour = 20, minute = 0, second = 0,
                     microsecond = 0\<rparr>"

text \<open>
  The sync settings of the default configuration; a worker that holds fifty fixes, has
  an empty queue and last uploaded at time 0; and a pass one second later.
\<close>

definition default_config :: sync_config where
  "default_config = \<lparr>cfg_batch_size = Some 100, cfg_sync_interval = Some 30\<rparr>"

definition idle_worker :: worker where
  "idle_worker = \<lparr>sync_queue = [], batch = replicate 50 sample_fix, last_sync = 0,
                   uploads = []\<rparr>"

definition a_second_later :: pass where
  "a_second_later = \<lparr>clock = 1000000, upload_ok = True, clock_after = 1200000\<rparr>"

text \<open>
  The application after one GPS update on a new buffer and a new worker, with a batch
  size of 1, so that the next pass of the worker uploads the fix; a pass whose upload
  succeeds and a pass whose upload fails.
\<close>

definition eager_config :: sync_config where
  "eager_config = \<lparr>cfg_batch_size = Some 1, cfg_sync_interval = Some 30\<rparr>"

definition one_update :: fleet where
  "one_update =
     handle_gps_update nul_codec ''fleet-001'' utc_sample
       \<lparr>data_buffer = new_store, firebase_sync = new_worker 0\<rparr> sample_fix"

definition good_pass :: pass where
  "good_pass = \<lparr>clock = 1000000, upload_ok = True, clock_after = 2000000\<rparr>"

definition bad_pass :: pass where
  "bad_pass = \<lparr>clock = 1000000, upload_ok = False, clock_after = 2000000\<rparr>"

text \<open>
  A pass shortly after an upload that ended at 1.2 s, and a pass at the first queue
  timeout after it.
\<close>

definition soon_after :: pass where
  "soon_after = \<lparr>clock = 1300000, upload_ok = True, clock_after = 1400000\<rparr>"

definition first_timeout :: pass where
  "first_timeout = \<lparr>clock = 2300000, upload_ok = True, clock_after = 2500000\<rparr>"

text \<open>
  A pass a day and five seconds after the worker has started, and a pass when the
  clock of the device has been set back by ten seconds since.
\<close>

definition a_day_later :: pass where
  "a_day_later = \<lparr>clock = 86405000000, upload_ok = True, clock_after = 86406000000\<rparr>"

definition clock_set_back :: pass where
  "clock_set_back = \<lparr>clock = - 10000000, upload_ok = True, clock_after = - 9000000\<rparr>"

section \<open>Dictionaries\<close>

lemma map_of_dict_set: "map_of (dict_set d k v) = (map_of d)(k \<mapsto> v)"
  by (induction d) (auto simp: fun_eq_iff)

lemma map_of_dict_update:
  "map_of (dict_update d e) k =
     (case map_of (rev e) k of None \<Rightarrow> map_of d k | Some v \<Rightarrow> Some v)"
proof (induction e arbitrary: d)
  case Nil
  show ?case by simp
next
  case (Cons x e)
  obtain a b where x: "x = (a, b)" by (cases x)
  show ?case
    by (simp add: x Cons.IH map_of_dict_set map_add_def split: option.splits)
qed

lemma map_of_rev_distinct:
  "distinct (map fst e) \<Longrightarrow> map_of (rev e) = map_of e"
  by (rule map_of_inject_set [THEN iffD2]) (simp_all add: rev_map [symmetric])

lemma dict_update_overrides:
  assumes "distinct (map fst e)" and "(k, v) \<in> set e"
  shows "map_of (dict_update d e) k = Some v"
  using assms by (simp add: map_of_dict_update map_of_rev_distinct)

lemma extra_data_member:
  "(k, v) \<in> set (extra_data location) \<longleftrightarrow> (k, v) \<in> set location \<and> k \<notin> set core_keys"
  by (auto simp: extra_data_def)

lemma extra_data_distinct:
  "distinct (map fst location) \<Longrightarrow> distinct (map fst (extra_data location))"
  by (simp add: extra_data_def distinct_map_filter)

section \<open>The batch query\<close>

lemma sql_limit_subset: "set (sql_limit n xs) \<subseteq> set xs"
  by (auto simp: sql_limit_def dest: in_set_takeD)

lemma sql_limit_length: "0 \<le> n \<Longrightarrow> int (length (sql_limit n xs)) \<le> n"
  by (simp add: sql_limit_def)

lemma sql_limit_sorted_wrt: "sorted_wrt P xs \<Longrightarrow> sorted_wrt P (sql_limit n xs)"
  by (simp add: sql_limit_def)

lemma select_unsynced_claimable:
  "r \<in> set (select_unsynced s n) \<Longrightarrow> r \<in> set (rows s) \<and> claimable r"
  using sql_limit_subset [of n "sort_key (\<lambda>r. (- priority r, timestamp r)) (filter claimable (rows s))"]
  by (auto simp: select_unsynced_def)

lemma select_unsynced_length: "0 \<le> n \<Longrightarrow> int (length (select_unsynced s n)) \<le> n"
  by (simp add: select_unsynced_def sql_limit_length)

lemma sort_key_batch_order:
  "sorted_wrt batch_order (sort_key (\<lambda>r. (- priority r, timestamp r)) xs)"
proof -
  have "sorted (map (\<lambda>r. (- priority r, timestamp r)) (sort_key (\<lambda>r. (- priority r, timestamp r)) xs))"
    by (rule sorted_sort_key)
  then have "sorted_wrt (\<lambda>a b. (- priority a, timestamp a) \<le> (- priority b, timestamp b))
               (sort_key (\<lambda>r. (- priority r, timestamp r)) xs)"
    by (simp add: sorted_map)
  then show ?thesis
    by (rule sorted_wrt_mono_rel [rotated]) (auto simp: batch_order_def less_eq_prod_def)
qed

lemma select_unsynced_ordered: "sorted_wrt batch_order (select_unsynced s n)"
  by (simp add: select_unsynced_def sql_limit_sorted_wrt sort_key_batch_order)

lemma select_unsynced_all_set:
  "set (select_unsynced s (- 1)) = {r \<in> set (rows s). claimable r}"
  by (auto simp: select_unsynced_def sql_limit_def)

lemma select_unsynced_all_length:
  "length (select_unsynced s (- 1)) = length (filter claimable (rows s))"
  by (auto simp: select_unsynced_def sql_limit_def)

lemma select_unsynced_prefix:
  "select_unsynced s n = sql_limit n (select_unsynced s (- 1))"
  by (simp add: select_unsynced_def sql_limit_def)

lemma collect_rows_Some:
  "collect_rows C rs = Some ds \<Longrightarrow> map Some ds = map (row_data C) rs"
  by (induction rs arbitrary: ds) (auto split: option.splits)

lemma collect_rows_all:
  "\<forall>r \<in> set rs. row_data C r \<noteq> None \<Longrightarrow>
   collect_rows C rs = Some (map (the \<circ> row_data C) rs)"
  by (induction rs) (auto split: option.splits)

lemma get_unsynced_batch_rows:
  "get_unsynced_batch C s n = [] \<or>
   map Some (get_unsynced_batch C s n) = map (row_data C) (select_unsynced s n)"
  by (auto simp: get_unsynced_batch_def dest: collect_rows_Some split: option.splits)

lemma get_unsynced_batch_length:
  "length (get_unsynced_batch C s n) \<le> length (select_unsynced s n)"
  using get_unsynced_batch_rows [of C s n]
  by (auto dest: arg_cong [where f = length])

lemma get_unsynced_batch_member:
  assumes "d \<in> set (get_unsynced_batch C s n)"
  shows "\<exists>r \<in> set (select_unsynced s n). row_data C r = Some d"
proof -
  from assms have "get_unsynced_batch C s n \<noteq> []" by auto
  with get_unsynced_batch_rows [of C s n]
  have eq: "map Some (get_unsynced_batch C s n) = map (row_data C) (select_unsynced s n)" by simp
  from assms have "Some d \<in> set (map Some (get_unsynced_batch C s n))" by simp
  with eq have "Some d \<in> set (map (row_data C) (select_unsynced s n))" by simp
  then show ?thesis by auto
qed

lemma get_unsynced_batch_decodable:
  assumes "conn_open s" and "decodable C s" and "sqlite_integer n"
  shows "get_unsynced_batch C s n = map (the \<circ> row_data C) (select_unsynced s n)"
proof -
  have "\<forall>r \<in> set (select_unsynced s n). row_data C r \<noteq> None"
    using assms(2) select_unsynced_claimable [of _ s n]
    by (auto simp: decodable_def list_all_iff)
  then show ?thesis
    using assms(1,3) by (simp add: get_unsynced_batch_def collect_rows_all)
qed

lemma collect_rows_eq:
  "collect_rows C rs =
     (if list_all (\<lambda>r. row_data C r \<noteq> None) rs then Some (map (the \<circ> row_data C) rs) else None)"
  by (induction rs) (auto split: option.splits)

text \<open>
  The method in closed form: the dictionaries of the selected rows, in their order, or
  the empty list from the \<^verbatim>\<open>except\<close> branch.
\<close>

lemma get_unsynced_batch_eq:
  "get_unsynced_batch C s n =
     (if conn_open s \<and> sqlite_integer n \<and>
         list_all (\<lambda>r. row_data C r \<noteq> None) (select_unsynced s n)
      then map (the \<circ> row_data C) (select_unsynced s n) else [])"
  by (simp add: get_unsynced_batch_def collect_rows_eq)

lemma count_list_insort_key:
  "count_list (insort_key f x xs) y = count_list (x # xs) y"
  by (induction xs) auto

lemma count_list_sort_key: "count_list (sort_key f xs) y = count_list xs y"
  by (induction xs) (auto simp: count_list_insort_key)

text \<open>
  The selected rows are the first \<open>n\<close> of a list that holds every row of the table that
  is not synced and under the retry bound, each as often as the table does, in the order
  of the query. A negative number bound to \<^verbatim>\<open>LIMIT\<close> selects the whole list.
\<close>

lemma select_unsynced_take:
  "\<exists>every. (\<forall>r. count_list every r = count_list (filter claimable (rows s)) r) \<and>
      sorted_wrt batch_order every \<and>
      select_unsynced s (int n) = take n every \<and>
      (\<forall>m < 0. select_unsynced s m = every)"
  by (rule exI [of _ "sort_key (\<lambda>r. (- priority r, timestamp r)) (filter claimable (rows s))"])
    (simp add: count_list_sort_key sort_key_batch_order select_unsynced_def sql_limit_def)

section \<open>Single store operations\<close>

lemma insert_location_cases:
  assumes "insert_location C now s location prio = (ok, s')"
  shows "(\<not> ok \<and> s' = s) \<or>
         (ok \<and> conn_open s \<and>
          (\<exists>lat lon r.
             map_of location ''latitude'' = Some lat \<and>
             map_of location ''longitude'' = Some lon \<and>
             r = \<lparr>row_id = seq s + 1,
                  timestamp = sqlite_timestamp now,
                  device_id = dict_get location ''device_id'' (PStr ''unknown''),
                  latitude = lat,
                  longitude = lon,
                  speed = dict_get location ''speed'' (PInt 0),
                  heading = dict_get location ''heading'' (PInt 0),
                  altitude = dict_get location ''altitude'' (PInt 0),
                  satellites = dict_get location ''satellites'' (PInt 0),
                  hdop = dict_get location ''hdop'' (PInt 0),
                  synced = False,
                  priority = prio,
                  compressed_data =
                    (if extra_data location = [] then None
                     else compress_json C (extra_data location)),
                  retry_count = 0\<rparr> \<and>
             (extra_data location \<noteq> [] \<longrightarrow> compress_json C (extra_data location) \<noteq> None) \<and>
             s' = s\<lparr>rows := rows s @ [r], seq := seq s + 1\<rparr>))"
  using assms unfolding insert_location_def Let_def
  by (auto split: if_splits option.splits prod.splits)

lemma insert_location_rows:
  "rows (snd (insert_location C now s location prio)) = rows s \<or>
   (\<exists>r. rows (snd (insert_location C now s location prio)) = rows s @ [r] \<and>
        row_id r = seq s + 1 \<and> \<not> synced r \<and> retry_count r = 0 \<and>
        seq (snd (insert_location C now s location prio)) = seq s + 1)"
  using insert_location_cases [of C now s location prio
      "fst (insert_location C now s location prio)" "snd (insert_location C now s location prio)"]
  by auto

lemma insert_location_seq:
  "seq s \<le> seq (snd (insert_location C now s location prio)) \<and>
   conn_open (snd (insert_location C now s location prio)) = conn_open s"
  using insert_location_cases [of C now s location prio
      "fst (insert_location C now s location prio)" "snd (insert_location C now s location prio)"]
  by auto

lemma cleanup_old_data_rows:
  "set (rows (snd (cleanup_old_data now s days))) \<subseteq> set (rows s) \<and>
   seq (snd (cleanup_old_data now s days)) = seq s \<and>
   conn_open (snd (cleanup_old_data now s days)) = conn_open s"
  by (auto simp: cleanup_old_data_def Let_def split: option.splits)

text \<open>
  Where a row of the store after one operation comes from: it is a row of the store
  before, with the same id, still synced if it was, and with one retry more exactly
  when the operation applies a retry to it; or it is the row just inserted under the
  next id.
\<close>

lemma apply_op_row:
  assumes "r' \<in> set (rows (apply_op C s op))"
  shows "(\<exists>r \<in> set (rows s). row_id r' = row_id r \<and> (synced r \<longrightarrow> synced r') \<and>
            retry_count r' =
              retry_count r + (if applies_retry s (row_id r) op then 1 else 0)) \<or>
         (row_id r' = seq s + 1 \<and> seq (apply_op C s op) = seq s + 1)"
proof (cases op)
  case (InsertLocation location prio now)
  with assms insert_location_rows [of C now s location prio] show ?thesis by auto
next
  case (GetUnsyncedBatch n)
  with assms show ?thesis by auto
next
  case (MarkSynced fault ids)
  with assms show ?thesis by (auto simp: mark_synced_def Let_def split: if_splits)
next
  case (IncrementRetry fault ids)
  with assms show ?thesis by (auto simp: increment_retry_def Let_def split: if_splits)
next
  case (CleanupOldData days now)
  with assms cleanup_old_data_rows [of now s days] show ?thesis by auto
next
  case (GetStats n)
  with assms show ?thesis by auto
qed

lemma apply_op_seq: "seq s \<le> seq (apply_op C s op)"
  using insert_location_seq cleanup_old_data_rows
  by (cases op) (auto simp: mark_synced_def increment_retry_def Let_def)

lemma apply_op_conn_open: "conn_open (apply_op C s op) = conn_open s"
  using insert_location_seq cleanup_old_data_rows
  by (cases op) (auto simp: mark_synced_def increment_retry_def Let_def)

lemma insert_location_max_variables:
  "max_variables (snd (insert_location C now s location prio)) = max_variables s"
  by (auto simp: insert_location_def Let_def split: option.splits prod.splits)

lemma cleanup_old_data_max_variables:
  "max_variables (snd (cleanup_old_data now s days)) = max_variables s"
  by (auto simp: cleanup_old_data_def Let_def split: option.splits)

lemma apply_op_max_variables: "max_variables (apply_op C s op) = max_variables s"
  using insert_location_max_variables cleanup_old_data_max_variables
  by (cases op) (auto simp: mark_synced_def increment_retry_def Let_def)

lemma applies_retry_same:
  "conn_open s1 = conn_open s \<Longrightarrow> max_variables s1 = max_variables s \<Longrightarrow>
   applies_retry s1 i op = applies_retry s i op"
  by (cases op) (auto simp: bindable_ids_def)

lemma retries_of_same:
  "conn_open s1 = conn_open s \<Longrightarrow> max_variables s1 = max_variables s \<Longrightarrow>
   retries_of s1 i ops = retries_of s i ops"
  by (simp add: retries_of_def applies_retry_same [of s1 s] cong: filter_cong)

lemma apply_op_ids:
  "map row_id (rows (apply_op C s op)) = map row_id (rows s) @ [seq s + 1] \<and>
     seq (apply_op C s op) = seq s + 1 \<or>
   (\<exists>P. map row_id (rows (apply_op C s op)) = map row_id (filter P (rows s)))"
proof (cases op)
  case (InsertLocation location prio now)
  from insert_location_rows [of C now s location prio] show ?thesis
  proof
    assume "rows (snd (insert_location C now s location prio)) = rows s"
    then have "map row_id (rows (apply_op C s op)) = map row_id (filter (\<lambda>r. True) (rows s))"
      by (simp add: InsertLocation)
    then show ?thesis by blast
  next
    assume "\<exists>r. rows (snd (insert_location C now s location prio)) = rows s @ [r] \<and>
        row_id r = seq s + 1 \<and> \<not> synced r \<and> retry_count r = 0 \<and>
        seq (snd (insert_location C now s location prio)) = seq s + 1"
    then show ?thesis by (auto simp: InsertLocation)
  qed
next
  case (GetUnsyncedBatch n)
  then have "map row_id (rows (apply_op C s op)) = map row_id (filter (\<lambda>r. True) (rows s))"
    by simp
  then show ?thesis by blast
next
  case (MarkSynced fault ids)
  then have "map row_id (rows (apply_op C s op)) = map row_id (filter (\<lambda>r. True) (rows s))"
    by (simp add: mark_synced_def Let_def comp_def if_distrib [of row_id] cong: if_cong)
  then show ?thesis by blast
next
  case (IncrementRetry fault ids)
  then have "map row_id (rows (apply_op C s op)) = map row_id (filter (\<lambda>r. True) (rows s))"
    by (simp add: increment_retry_def Let_def comp_def if_distrib [of row_id] cong: if_cong)
  then show ?thesis by blast
next
  case (CleanupOldData days now)
  then have "\<exists>P. rows (apply_op C s op) = filter P (rows s)"
  proof (cases "rows (apply_op C s op) = rows s")
    case True
    then have "rows (apply_op C s op) = filter (\<lambda>r. True) (rows s)" by simp
    then show ?thesis by blast
  next
    case False
    with CleanupOldData show ?thesis
      by (auto simp: cleanup_old_data_def Let_def split: option.splits if_splits)
  qed
  then show ?thesis by auto
next
  case (GetStats n)
  then have "map row_id (rows (apply_op C s op)) = map row_id (filter (\<lambda>r. True) (rows s))"
    by simp
  then show ?thesis by blast
qed

lemma apply_op_ids_ok:
  assumes "ids_ok s"
  shows "ids_ok (apply_op C s op)"
proof -
  have bounded: "row_id r' \<le> seq (apply_op C s op)"
    if "r' \<in> set (rows (apply_op C s op))" for r'
    using apply_op_row [OF that] assms apply_op_seq [of s C op]
    by (auto simp: ids_ok_def list_all_iff)
  have "distinct (map row_id (rows (apply_op C s op)))"
    using apply_op_ids [of C s op]
  proof
    assume "map row_id (rows (apply_op C s op)) = map row_id (rows s) @ [seq s + 1] \<and>
      seq (apply_op C s op) = seq s + 1"
    moreover have "seq s + 1 \<notin> row_id ` set (rows s)"
      using assms by (auto simp: ids_ok_def list_all_iff)
    ultimately show ?thesis using assms by (simp add: ids_ok_def)
  next
    assume "\<exists>P. map row_id (rows (apply_op C s op)) = map row_id (filter P (rows s))"
    then show ?thesis using assms by (auto simp: ids_ok_def distinct_map_filter)
  qed
  with bounded show ?thesis by (simp add: ids_ok_def list_all_iff)
qed

lemma run_ops_ids_ok: "ids_ok s \<Longrightarrow> ids_ok (run_ops C s ops)"
  by (induction ops arbitrary: s) (auto simp: apply_op_ids_ok)

lemma new_store_ids_ok: "ids_ok new_store"
  by (simp add: ids_ok_def new_store_def)

lemma ids_ok_unique:
  "ids_ok s \<Longrightarrow> r \<in> set (rows s) \<Longrightarrow> q \<in> set (rows s) \<Longrightarrow> row_id r = row_id q \<Longrightarrow> r = q"
  by (auto simp: ids_ok_def distinct_map inj_on_def)

lemma run_ops_conn_open: "conn_open (run_ops C s ops) = conn_open s"
  by (induction ops arbitrary: s) (auto simp: apply_op_conn_open)

text \<open>
  The same over a sequence of operations, for an id that has been given out: the row
  that carries it afterwards is the row that carried it before, synced if it was, with
  as many retries more as operations applied one to it.
\<close>

lemma run_ops_row:
  assumes "ids_ok s" and "i \<le> seq s"
    and "r' \<in> set (rows (run_ops C s ops))" and "row_id r' = i"
  shows "\<exists>r \<in> set (rows s). row_id r = i \<and> (synced r \<longrightarrow> synced r') \<and>
           retry_count r' = retry_count r + retries_of s i ops"
  using assms
proof (induction ops arbitrary: s)
  case Nil
  then show ?case by (auto simp: retries_of_def)
next
  case (Cons op ops)
  let ?s1 = "apply_op C s op"
  have b1: "ids_ok ?s1" using Cons.prems(1) by (rule apply_op_ids_ok)
  have c1: "retries_of ?s1 i ops = retries_of s i ops"
    by (rule retries_of_same) (simp_all add: apply_op_conn_open apply_op_max_variables)
  have i1: "i \<le> seq ?s1" using Cons.prems(2) apply_op_seq [of s C op] by simp
  from Cons.prems(3) have "r' \<in> set (rows (run_ops C ?s1 ops))" by simp
  from Cons.IH [OF b1 i1 this Cons.prems(4)]
  obtain r1 where r1: "r1 \<in> set (rows ?s1)" "row_id r1 = i" "synced r1 \<longrightarrow> synced r'"
      "retry_count r' = retry_count r1 + retries_of s i ops"
    by (auto simp: c1)
  from apply_op_row [OF r1(1)] r1(2) Cons.prems(2)
  obtain r where r: "r \<in> set (rows s)" "row_id r1 = row_id r" "synced r \<longrightarrow> synced r1"
      "retry_count r1 = retry_count r + (if applies_retry s (row_id r) op then 1 else 0)"
    by auto
  have "retries_of s i (op # ops) = (if applies_retry s i op then 1 else 0) + retries_of s i ops"
    by (simp add: retries_of_def)
  with r r1 show ?case by (intro bexI [of _ r]) auto
qed

section \<open>The sample buffer and the three inserts\<close>

lemma sample_select_all:
  "select_unsynced sample_store (- 1) =
     [sample_row 3 ''2024-01-08 23:00:20'' 5, sample_row 1 ''2024-01-08 23:00:00'' 0,
      sample_row 2 ''2024-01-08 23:00:10'' 0]"
  by (simp add: select_unsynced_def sql_limit_def sample_store_def sample_row_def claimable_def
      max_retry_def)

lemma sample_batch_all:
  "length (get_unsynced_batch C sample_store (- 1)) = 3"
  by (simp add: get_unsynced_batch_def sqlite_integer_def sample_select_all row_data_def
      row_columns_def sample_row_def)
    (simp add: sample_store_def)

lemma three_inserts_rows:
  assumes "insert_location C t1 new_store l1 0 = (True, s1)"
    and "insert_location C t2 s1 l2 0 = (True, s2)"
    and "insert_location C t3 s2 l3 5 = (True, s3)"
  shows "\<exists>r1 r2 r3. rows s3 = [r1, r2, r3] \<and>
           row_id r1 = 1 \<and> row_id r2 = 2 \<and> row_id r3 = 3 \<and>
           priority r1 = 0 \<and> priority r2 = 0 \<and> priority r3 = 5 \<and>
           timestamp r1 = sqlite_timestamp t1 \<and> timestamp r2 = sqlite_timestamp t2 \<and>
           claimable r1 \<and> claimable r2 \<and> claimable r3"
  using insert_location_cases [OF assms(1)] insert_location_cases [OF assms(2)]
    insert_location_cases [OF assms(3)]
  by (auto simp: new_store_def claimable_def max_retry_def)

lemma three_inserts_batch:
  assumes "insert_location C t1 new_store l1 0 = (True, s1)"
    and "insert_location C t2 s1 l2 0 = (True, s2)"
    and "insert_location C t3 s2 l3 5 = (True, s3)"
  shows "select_unsynced s3 2 =
           [rows s3 ! 2,
            if sqlite_timestamp t1 \<le> sqlite_timestamp t2 then rows s3 ! 0 else rows s3 ! 1]"
proof -
  from three_inserts_rows [OF assms] obtain r1 r2 r3 where
    r: "rows s3 = [r1, r2, r3]" "priority r1 = 0" "priority r2 = 0" "priority r3 = 5"
       "timestamp r1 = sqlite_timestamp t1" "timestamp r2 = sqlite_timestamp t2"
       "claimable r1" "claimable r2" "claimable r3"
    by blast
  then show ?thesis
    by (simp add: select_unsynced_def sql_limit_def)
qed


section \<open>Synced rows stay synced\<close>

lemma mark_synced_ids_ok: "ids_ok s \<Longrightarrow> ids_ok (snd (mark_synced fault s ids))"
  using apply_op_ids_ok [of s C "MarkSynced fault ids"] by simp

lemma mark_synced_seq: "seq (snd (mark_synced fault s ids)) = seq s"
  by (simp add: mark_synced_def Let_def)

lemma mark_synced_rows_synced:
  assumes "fst (mark_synced fault s ids)"
    and "r \<in> set (rows (snd (mark_synced fault s ids)))"
    and "row_id r \<in> set ids"
  shows "synced r"
proof -
  from assms(1) have "rows (snd (mark_synced fault s ids)) =
      map (\<lambda>r. if row_id r \<in> set ids then r\<lparr>synced := True\<rparr> else r) (rows s)"
    by (simp add: mark_synced_def Let_def split: if_splits)
  with assms(2) obtain q where "q \<in> set (rows s)"
      "r = (if row_id q \<in> set ids then q\<lparr>synced := True\<rparr> else q)"
    by auto
  with assms(3) show ?thesis by (cases "row_id q \<in> set ids") simp_all
qed


lemma unclaimable_not_selected:
  assumes "\<And>r. r \<in> set (rows s) \<Longrightarrow> row_id r = i \<Longrightarrow> \<not> claimable r"
  shows "i \<notin> row_id ` set (select_unsynced s n)"
proof
  assume "i \<in> row_id ` set (select_unsynced s n)"
  then obtain r where "r \<in> set (select_unsynced s n)" "row_id r = i" by auto
  with select_unsynced_claimable [of r s n] assms [of r] show False by simp
qed

lemma batch_from_rows:
  assumes "\<And>r. r \<in> set (rows s) \<Longrightarrow> row_id r = i \<Longrightarrow> \<not> claimable r"
    and "d \<in> set (get_unsynced_batch C s n)"
  shows "\<exists>r \<in> set (rows s). row_id r \<noteq> i \<and> claimable r \<and> row_data C r = Some d"
proof -
  from get_unsynced_batch_member [OF assms(2)]
  obtain r where r: "r \<in> set (select_unsynced s n)" "row_data C r = Some d" by blast
  from select_unsynced_claimable [OF r(1)] have rc: "r \<in> set (rows s)" "claimable r" by simp_all
  with assms(1) [of r] have "row_id r \<noteq> i" by blast
  with rc r(2) show ?thesis by blast
qed

lemma synced_stays:
  assumes "ids_ok s" and "r \<in> set (rows s)" and "synced r"
    and "r' \<in> set (rows (run_ops C s ops))" and "row_id r' = row_id r"
  shows "synced r'"
proof -
  from assms(1,2,5) have le: "row_id r' \<le> seq s"
    by (auto simp: ids_ok_def list_all_iff)
  from run_ops_row [OF assms(1) le assms(4) refl]
  obtain q where q: "q \<in> set (rows s)" "row_id q = row_id r'" "synced q \<longrightarrow> synced r'"
    by blast
  from ids_ok_unique [OF assms(1,2) q(1)] q(2) assms(5) have "r = q" by simp
  with q(3) assms(3) show ?thesis by simp
qed

lemma marked_stays:
  assumes "ids_ok s" and "i \<le> seq s" and "mark_synced fault s [i] = (True, s1)"
    and "r' \<in> set (rows (run_ops C s1 ops))" and "row_id r' = i"
  shows "synced r'"
proof -
  from assms(3) have s1: "s1 = snd (mark_synced fault s [i])"
    and ok: "fst (mark_synced fault s [i])"
    by simp_all
  have b1: "ids_ok s1" unfolding s1 using assms(1) by (rule mark_synced_ids_ok)
  have i1: "i \<le> seq s1" unfolding s1 using assms(2) by (simp add: mark_synced_seq)
  from run_ops_row [OF b1 i1 assms(4,5)]
  obtain q where q: "q \<in> set (rows s1)" "row_id q = i" "synced q \<longrightarrow> synced r'"
    by blast
  from q(1) have "q \<in> set (rows (snd (mark_synced fault s [i])))" by (simp add: s1)
  from mark_synced_rows_synced [OF ok this] q(2) have "synced q" by simp
  with q(3) show ?thesis by simp
qed


lemma sample_store_ids_ok: "ids_ok sample_store"
  by (simp add: ids_ok_def sample_store_def sample_row_def)


section \<open>Statistics and retries\<close>

lemma get_stats_keys:
  "conn_open s \<Longrightarrow>
   map fst (get_stats size_bytes s) = [''total'', ''unsynced'', ''failed'', ''size_bytes'']"
  by (simp add: get_stats_def)

lemma get_stats_failed:
  "conn_open s \<Longrightarrow>
   map_of (get_stats size_bytes s) ''failed'' =
     Some (PInt (int (length (filter (\<lambda>r. max_retry \<le> retry_count r) (rows s)))))"
  by (simp add: get_stats_def)

lemma retried_row:
  assumes "ids_ok s" and "i \<le> seq s" and "max_retry \<le> retries_of s i ops"
    and "r' \<in> set (rows (run_ops C s ops))" and "row_id r' = i"
  shows "max_retry \<le> retry_count r'"
  using run_ops_row [OF assms(1,2,4,5)] assms(3) by auto


lemma retried_store_open: "0 < retries_of s i ops \<Longrightarrow> conn_open s"
proof -
  assume "0 < retries_of s i ops"
  then have "filter (applies_retry s i) ops \<noteq> []" by (auto simp: retries_of_def)
  then obtain op where "applies_retry s i op" by (auto simp: filter_empty_conv)
  then show ?thesis by (cases op) simp_all
qed

lemma retried_row_count:
  assumes "ids_ok s" and "r \<in> set (rows s)"
    and "r' \<in> set (rows (run_ops C s ops))" and "row_id r' = row_id r"
  shows "retry_count r' = retry_count r + retries_of s (row_id r) ops"
proof -
  from assms(1,2) have le: "row_id r \<le> seq s" by (auto simp: ids_ok_def list_all_iff)
  from run_ops_row [OF assms(1) le assms(3,4)]
  obtain q where q: "q \<in> set (rows s)" "row_id q = row_id r"
      "retry_count r' = retry_count q + retries_of s (row_id r) ops"
    by blast
  from ids_ok_unique [OF assms(1,2) q(1)] q(2) have "r = q" by simp
  with q(3) show ?thesis by simp
qed

text \<open>
  Five calls that name row 1 next to an id that cannot be bound apply no retry: each
  returns \<open>False\<close> and the table stays as it was.
\<close>

lemma replicate_5: "replicate 5 x = [x, x, x, x, x]"
  by (simp add: eval_nat_numeral)

lemma unbindable_retries_not_applied:
  "retries_of sample_store 1 (replicate 5 (IncrementRetry NoFault [1, 2 ^ 63])) = 0 \<and>
   run_ops C sample_store (replicate 5 (IncrementRetry NoFault [1, 2 ^ 63])) = sample_store"
  by (simp add: replicate_5 retries_of_def increment_retry_def bindable_ids_def
      sqlite_integer_def)

lemma five_retries_count: "retries_of sample_store 1 five_retries = 5"
  by (simp add: retries_of_def five_retries_def bindable_ids_def sqlite_integer_def
      sample_store_def)

lemma five_retries_run:
  "rows (run_ops C sample_store five_retries) =
     [(sample_row 1 ''2024-01-08 23:00:00'' 0)\<lparr>retry_count := 5\<rparr>,
      (sample_row 2 ''2024-01-08 23:00:10'' 0)\<lparr>retry_count := 1\<rparr>,
      sample_row 3 ''2024-01-08 23:00:20'' 5]"
  by (simp add: five_retries_def increment_retry_def bindable_ids_def sqlite_integer_def
      sample_store_def sample_row_def)


section \<open>The sample fixes\<close>

lemmas datetime_text_defs =
  isoformat_def sqlite_timestamp_def date_text_def time_text_def pad2_def pad4_def pad6_def
  digit_char_def

lemma utc_sample_text: "sqlite_timestamp utc_sample = ''2024-01-08 23:00:00''"
  by (simp add: utc_sample_def datetime_text_defs)

lemma sample_fix_extra: "extra_data sample_fix = [(''heading_raw'', PStr ''123.4'')]"
  by (simp add: extra_data_def sample_fix_def core_keys_def)

lemma sample_fix_blob:
  "compress_json nul_codec (extra_data sample_fix) = Some (''heading_raw'' @ [CHR 0x00] @ ''123.4'' @ [CHR 0x00])"
  by (simp add: sample_fix_extra nul_codec_def)

lemma sample_fix_decode:
  "decompress_json nul_codec (''heading_raw'' @ [CHR 0x00] @ ''123.4'' @ [CHR 0x00]) =
     Some [(''heading_raw'', PStr ''123.4'')]"
  by (simp add: nul_codec_def)

lemma sample_fix_insert_open:
  "conn_open s \<Longrightarrow> sqlite_integer prio \<Longrightarrow>
   fst (insert_location nul_codec now s sample_fix prio)"
  by (simp add: insert_location_def sample_fix_blob Let_def)
    (simp add: sample_fix_def dict_get_def sample_fix_extra sqlite_integer_def)

lemma small_priorities: "sqlite_integer 0" "sqlite_integer 5"
  by (simp_all add: sqlite_integer_def)

lemma sample_fix_insert:
  "fst (insert_location nul_codec utc_sample new_store sample_fix 0)"
  by (rule sample_fix_insert_open) (simp_all add: new_store_def small_priorities)

lemma second_insert:
  assumes "insert_location C now s location prio = (True, s1)"
  shows "conn_open s1 \<and> seq s1 = seq s + 1"
  using insert_location_cases [OF assms] by auto

lemma sample_fix_insert_twice:
  "fst (insert_location nul_codec utc_sample
          (snd (insert_location nul_codec utc_sample new_store sample_fix 0)) sample_fix 0)"
proof -
  have "insert_location nul_codec utc_sample new_store sample_fix 0 =
          (True, snd (insert_location nul_codec utc_sample new_store sample_fix 0))"
    using sample_fix_insert by (simp add: prod_eq_iff)
  from second_insert [OF this]
  have "conn_open (snd (insert_location nul_codec utc_sample new_store sample_fix 0))" by simp
  then show ?thesis
    by (rule sample_fix_insert_open) (rule small_priorities)
qed

lemma missing_latitude:
  "insert_location C now s [(''longitude'', PFloat 0.25)] 0 = (False, s)"
  by (simp add: insert_location_def extra_data_def core_keys_def)


lemma sample_three_inserts:
  "insert_location nul_codec utc_sample new_store sample_fix 0 = (True, three_s1) \<and>
   insert_location nul_codec utc_sample three_s1 sample_fix 0 = (True, three_s2) \<and>
   insert_location nul_codec utc_sample three_s2 sample_fix 5 = (True, three_s3)"
proof -
  have 1: "insert_location nul_codec utc_sample new_store sample_fix 0 = (True, three_s1)"
    using sample_fix_insert by (simp add: prod_eq_iff three_s1_def)
  from second_insert [OF 1] have "conn_open three_s1" by simp
  from sample_fix_insert_open [OF this small_priorities(1), of utc_sample]
  have 2: "insert_location nul_codec utc_sample three_s1 sample_fix 0 = (True, three_s2)"
    by (simp add: prod_eq_iff three_s2_def)
  from second_insert [OF 2] have "conn_open three_s2" by simp
  from sample_fix_insert_open [OF this small_priorities(2), of utc_sample]
  have 3: "insert_location nul_codec utc_sample three_s2 sample_fix 5 = (True, three_s3)"
    by (simp add: prod_eq_iff three_s3_def)
  from 1 2 3 show ?thesis by simp
qed


section \<open>The row a successful insert adds\<close>

text \<open>
  What comes back for the row that a successful insert has added, when the codec reads
  back what it wrote for this location.
\<close>

lemma inserted_row_data:
  assumes ins: "insert_location C now s location prio = (True, s')"
    and dist: "distinct (map fst location)"
    and rt: "\<And>b. compress_json C (extra_data location) = Some b \<Longrightarrow>
               b \<noteq> [] \<and> decompress_json C b = Some (extra_data location)"
  shows "\<exists>r. rows s' = rows s @ [r] \<and> row_id r = seq s + 1 \<and> \<not> synced r \<and> retry_count r = 0 \<and>
           compressed_data r =
             (if extra_data location = [] then None else compress_json C (extra_data location)) \<and>
           row_data C r = Some (dict_update (row_columns r) (extra_data location))"
proof -
  from insert_location_cases [OF ins]
  obtain r where r: "rows s' = rows s @ [r]" "row_id r = seq s + 1" "\<not> synced r"
      "retry_count r = 0"
      "compressed_data r =
         (if extra_data location = [] then None else compress_json C (extra_data location))"
      "extra_data location \<noteq> [] \<longrightarrow> compress_json C (extra_data location) \<noteq> None"
    by auto
  have "row_data C r = Some (dict_update (row_columns r) (extra_data location))"
  proof (cases "extra_data location = []")
    case True
    with r(5) show ?thesis by (simp add: row_data_def)
  next
    case False
    with r(6) obtain b where b: "compress_json C (extra_data location) = Some b" by auto
    from rt [OF b] b r(5) False show ?thesis by (simp add: row_data_def)
  qed
  with r show ?thesis by blast
qed

lemma insert_location_decodable:
  assumes "insert_location C now s location prio = (True, s')"
    and "distinct (map fst location)"
    and "\<And>b. compress_json C (extra_data location) = Some b \<Longrightarrow>
               b \<noteq> [] \<and> decompress_json C b = Some (extra_data location)"
    and "decodable C s"
  shows "decodable C s' \<and> conn_open s'"
proof -
  from inserted_row_data [OF assms(1,2,3)] obtain r where
    "rows s' = rows s @ [r]" "row_data C r \<noteq> None" by auto
  with assms(4) insert_location_cases [OF assms(1)] show ?thesis
    by (auto simp: decodable_def)
qed

lemma inserted_row_reads_back:
  assumes "insert_location C now s location prio = (True, s')" and "reads_back C location"
  shows "\<exists>r. rows s' = rows s @ [r] \<and> row_id r = seq s + 1 \<and> seq s' = seq s + 1 \<and>
           conn_open s' \<and> priority r = prio \<and> timestamp r = sqlite_timestamp now \<and>
           claimable r \<and>
           row_data C r = Some (dict_update (row_columns r) (extra_data location))"
proof -
  from insert_location_cases [OF assms(1)]
  obtain r where r: "rows s' = rows s @ [r]" "row_id r = seq s + 1" "seq s' = seq s + 1"
      "conn_open s'" "priority r = prio" "timestamp r = sqlite_timestamp now" "\<not> synced r"
      "retry_count r = 0"
      "compressed_data r =
         (if extra_data location = [] then None else compress_json C (extra_data location))"
      "extra_data location \<noteq> [] \<longrightarrow> compress_json C (extra_data location) \<noteq> None"
    by auto
  have "row_data C r = Some (dict_update (row_columns r) (extra_data location))"
  proof (cases "extra_data location = []")
    case True
    with r(9) show ?thesis by (simp add: row_data_def)
  next
    case False
    with r(10) obtain b where b: "compress_json C (extra_data location) = Some b" by auto
    with assms(2) False r(9) show ?thesis by (simp add: reads_back_def row_data_def)
  qed
  with r show ?thesis by (auto simp: claimable_def max_retry_def)
qed

lemma selected_row_returned:
  assumes "conn_open s" and "decodable C s" and "sqlite_integer n"
    and "r \<in> set (select_unsynced s n)" and "row_data C r = Some d"
  shows "d \<in> set (get_unsynced_batch C s n)"
proof -
  from assms(4,5) have "d \<in> (the \<circ> row_data C) ` set (select_unsynced s n)"
    by (force simp: image_iff)
  then show ?thesis by (simp add: get_unsynced_batch_decodable [OF assms(1,2,3)])
qed


lemma single_row_selected:
  assumes "rows s = [r]" and "\<not> synced r" and "retry_count r = 0" and "0 < n"
  shows "select_unsynced s n = [r]"
  using assms by (simp add: select_unsynced_def sql_limit_def claimable_def max_retry_def)

lemma new_store_decodable: "decodable C new_store"
  by (simp add: decodable_def new_store_def)

lemma colliding_fix_extra: "extra_data colliding_fix = [(''id'', PStr ''77'')]"
  by (simp add: extra_data_def colliding_fix_def core_keys_def)

lemma colliding_fix_blob:
  "compress_json nul_codec (extra_data colliding_fix) = Some (''id'' @ [CHR 0x00] @ ''77'' @ [CHR 0x00])"
  by (simp add: colliding_fix_extra nul_codec_def)

lemma colliding_fix_decode:
  "decompress_json nul_codec (''id'' @ [CHR 0x00] @ ''77'' @ [CHR 0x00]) =
     Some [(''id'', PStr ''77'')]"
  by (simp add: nul_codec_def)

lemma colliding_fix_insert:
  "fst (insert_location nul_codec utc_sample new_store colliding_fix 0)"
  by (simp add: insert_location_def colliding_fix_blob Let_def new_store_def)
    (simp add: colliding_fix_def dict_get_def colliding_fix_extra sqlite_integer_def)

lemma row_columns_keys:
  "map fst (row_columns r) =
     [''id'', ''timestamp'', ''device_id'', ''latitude'', ''longitude'', ''speed'', ''heading'',
      ''altitude'', ''satellites'', ''hdop'']"
  by (simp add: row_columns_def)

lemma row_columns_id: "map_of (row_columns r) ''id'' = Some (PInt (row_id r))"
  by (simp add: row_columns_def)

text \<open>
  Three inserts into a new buffer with priorities 0, 0 and 5: a batch of 2 is the
  dictionary of the third row, then that of the older of the first two.
\<close>

lemma three_inserts_returned:
  assumes "insert_location C t1 new_store l1 0 = (True, s1)"
    and "insert_location C t2 s1 l2 0 = (True, s2)"
    and "insert_location C t3 s2 l3 5 = (True, s3)"
    and "reads_back C l1" and "reads_back C l2" and "reads_back C l3"
  shows "\<exists>r1 r2 r3. rows s3 = [r1, r2, r3] \<and>
           map row_id (rows s3) = [1, 2, 3] \<and> map priority (rows s3) = [0, 0, 5] \<and>
           map timestamp (rows s3) =
             [sqlite_timestamp t1, sqlite_timestamp t2, sqlite_timestamp t3] \<and>
           get_unsynced_batch C s3 2 =
             [dict_update (row_columns r3) (extra_data l3),
              if sqlite_timestamp t1 \<le> sqlite_timestamp t2
              then dict_update (row_columns r1) (extra_data l1)
              else dict_update (row_columns r2) (extra_data l2)]"
proof -
  from inserted_row_reads_back [OF assms(1,4)] obtain r1 where
    r1: "rows s1 = [r1]" "row_id r1 = 1" "seq s1 = 1" "priority r1 = 0"
      "timestamp r1 = sqlite_timestamp t1"
      "row_data C r1 = Some (dict_update (row_columns r1) (extra_data l1))"
    by (auto simp: new_store_def)
  from inserted_row_reads_back [OF assms(2,5)] r1 obtain r2 where
    r2: "rows s2 = [r1, r2]" "row_id r2 = 2" "seq s2 = 2" "priority r2 = 0"
      "timestamp r2 = sqlite_timestamp t2"
      "row_data C r2 = Some (dict_update (row_columns r2) (extra_data l2))"
    by auto
  from inserted_row_reads_back [OF assms(3,6)] r2 obtain r3 where
    r3: "rows s3 = [r1, r2, r3]" "row_id r3 = 3" "conn_open s3" "priority r3 = 5"
      "timestamp r3 = sqlite_timestamp t3"
      "row_data C r3 = Some (dict_update (row_columns r3) (extra_data l3))"
    by auto
  have dec: "decodable C s3" using r1(6) r2(6) r3(1,6) by (simp add: decodable_def)
  have "sqlite_integer 2" by (simp add: sqlite_integer_def)
  from get_unsynced_batch_decodable [OF r3(3) dec this]
    three_inserts_batch [OF assms(1,2,3)] r1 r2 r3
  have "get_unsynced_batch C s3 2 =
             [dict_update (row_columns r3) (extra_data l3),
              if sqlite_timestamp t1 \<le> sqlite_timestamp t2
              then dict_update (row_columns r1) (extra_data l1)
              else dict_update (row_columns r2) (extra_data l2)]"
    by simp
  with r1 r2 r3 show ?thesis by simp
qed

lemma sample_fix_reads_back: "reads_back nul_codec sample_fix"
  using sample_fix_blob sample_fix_decode by (simp add: reads_back_def sample_fix_extra)

section \<open>What the cleanup deletes\<close>

lemmas calendar_defs =
  minus_days_def ymd2ord_def days_before_year_def days_before_month_def is_leap_def
  ord2ymd_def Let_def

lemma cleanup_old_data_effect:
  assumes "conn_open s" and "minus_days now days = Some cutoff"
  shows "cleanup_old_data now s days =
           (int (length (filter (expired (isoformat cutoff)) (rows s))),
            s\<lparr>rows := filter (\<lambda>r. \<not> expired (isoformat cutoff) r) (rows s),
              vacuums := vacuums s + (if filter (expired (isoformat cutoff)) (rows s) = [] then 0 else 1)\<rparr>)"
  using assms by (simp add: cleanup_old_data_def Let_def)

lemma cleanup_old_data_keeps_pending:
  "r \<in> set (rows s) \<Longrightarrow> \<not> synced r \<Longrightarrow> r \<in> set (rows (snd (cleanup_old_data now s days)))"
  by (simp add: cleanup_old_data_def Let_def expired_def split: option.splits)

lemma cleanup_old_data_count:
  "fst (cleanup_old_data now s days) =
     int (length (rows s)) - int (length (rows (snd (cleanup_old_data now s days))))"
proof (cases "conn_open s")
  case False
  then show ?thesis by (simp add: cleanup_old_data_def)
next
  case True
  show ?thesis
  proof (cases "minus_days now days")
    case None
    with True show ?thesis by (simp add: cleanup_old_data_def)
  next
    case (Some c)
    have "length (filter (expired (isoformat c)) (rows s)) +
          length (filter (\<lambda>r. \<not> expired (isoformat c) r) (rows s)) = length (rows s)"
      by (rule sum_length_filter_compl)
    then have "int (length (filter (expired (isoformat c)) (rows s))) =
          int (length (rows s)) - int (length (filter (\<lambda>r. \<not> expired (isoformat c) r) (rows s)))"
      by linarith
    then show ?thesis
      by (simp add: cleanup_old_data_effect [OF True Some])
  qed
qed

lemma local_sample_cutoff:
  "minus_days local_sample 7 = Some (local_sample\<lparr>day := 8\<rparr>)"
  by (simp add: local_sample_def calendar_defs)

lemma local_sample_cutoff_text:
  "isoformat (local_sample\<lparr>day := 8\<rparr>) = ''2024-01-08T01:00:00''"
  by (simp add: local_sample_def datetime_text_defs)

lemma local_evening_cutoff:
  "minus_days local_evening 0 = Some local_evening"
  by (simp add: local_evening_def calendar_defs)

lemma local_evening_cutoff_text:
  "isoformat local_evening = ''2024-01-01T20:00:00''"
  by (simp add: local_evening_def datetime_text_defs)


section \<open>Passes of the sync worker\<close>

lemma worker_pass_item:
  "sync_queue w = item # rest \<Longrightarrow>
   worker_pass cfg p w =
     (if batch_size_of cfg \<le> int (length (batch w)) + 1 \<or>
         sync_interval_of cfg \<le> elapsed_seconds (last_sync w) (clock p)
      then (if upload_ok p
            then w\<lparr>sync_queue := rest, batch := [], last_sync := clock_after p,
                   uploads := uploads w @ [(batch w @ [item_data item], True)]\<rparr>
            else w\<lparr>sync_queue := rest @ map (requeue item) (batch w @ [item_data item]),
                   batch := [],
                   uploads := uploads w @ [(batch w @ [item_data item], False)]\<rparr>)
      else w\<lparr>sync_queue := rest, batch := batch w @ [item_data item]\<rparr>)"
  by (simp add: worker_pass_def Let_def)

lemma worker_pass_empty:
  "sync_queue w = [] \<Longrightarrow>
   worker_pass cfg p w =
     (if batch w \<noteq> [] then
        (if upload_ok p
         then w\<lparr>batch := [], last_sync := clock_after p,
                uploads := uploads w @ [(batch w, True)]\<rparr>
         else w\<lparr>uploads := uploads w @ [(batch w, False)]\<rparr>)
      else w)"
  by (simp add: worker_pass_def)

lemma flushes_item:
  "sync_queue w = item # rest \<Longrightarrow>
   flushes cfg p w \<longleftrightarrow>
     batch_size_of cfg \<le> int (length (batch w)) + 1 \<or>
     sync_interval_of cfg \<le> elapsed_seconds (last_sync w) (clock p)"
  by (simp add: flushes_def worker_pass_item)

lemma flushes_empty: "sync_queue w = [] \<Longrightarrow> flushes cfg p w \<longleftrightarrow> batch w \<noteq> []"
  by (simp add: flushes_def worker_pass_empty)

lemma elapsed_seconds_within_a_day:
  "0 \<le> now - since \<Longrightarrow> now - since < 86400000000 \<Longrightarrow>
   elapsed_seconds since now = (now - since) div 1000000"
  by (simp add: elapsed_seconds_def)

text \<open>
  Beyond a day the seconds field starts again: a day and five seconds after the last
  upload it reads 5.
\<close>

lemma elapsed_seconds_after_a_day: "elapsed_seconds 0 86405000000 = 5"
  by (simp add: elapsed_seconds_def)

lemma elapsed_seconds_clock_set_back: "elapsed_seconds 0 (- 10000000) = 86390"
  by (simp add: elapsed_seconds_def)

lemma elapsed_seconds_under_30:
  "since \<le> now \<Longrightarrow> now - since < 30000000 \<Longrightarrow> elapsed_seconds since now < 30"
  by (simp add: elapsed_seconds_def)

lemma worker_run_append:
  "worker_run cfg (ps @ qs) w = worker_run cfg qs (worker_run cfg ps w)"
  by (induction ps arbitrary: w) simp_all

text \<open>
  As long as neither trigger fires, each pass moves one item from the queue to the
  batch.
\<close>

lemma worker_run_accumulate:
  assumes "length ps = length items"
    and "int (length (batch w) + length items) < batch_size_of cfg"
    and "\<forall>p \<in> set ps. elapsed_seconds (last_sync w) (clock p) < sync_interval_of cfg"
    and "sync_queue w = items @ rest"
  shows "worker_run cfg ps w = w\<lparr>sync_queue := rest, batch := batch w @ map item_data items\<rparr>"
  using assms
proof (induction items arbitrary: ps w)
  case Nil
  then show ?case by simp
next
  case (Cons item items)
  from Cons.prems(1) obtain p ps' where ps: "ps = p # ps'" "length ps' = length items"
    by (cases ps) auto
  let ?w1 = "w\<lparr>sync_queue := items @ rest, batch := batch w @ [item_data item]\<rparr>"
  from Cons.prems(4) have q: "sync_queue w = item # (items @ rest)" by simp
  have step: "worker_pass cfg p w = ?w1"
    using Cons.prems(2,3) ps(1) by (simp add: worker_pass_item [OF q])
  have "worker_run cfg ps' ?w1 =
          ?w1\<lparr>sync_queue := rest, batch := batch ?w1 @ map item_data items\<rparr>"
    using Cons.prems(2,3) ps by (intro Cons.IH) auto
  with step ps(1) show ?case by simp
qed

lemma queue_data_all:
  "foldl queue_data w ds =
     w\<lparr>sync_queue := sync_queue w @ map (\<lambda>d. \<lparr>item_data = d, attempts = 0\<rparr>) ds\<rparr>"
  by (induction ds arbitrary: w) (simp_all add: queue_data_def)


lemma default_config_values:
  "batch_size_of default_config = 100" "sync_interval_of default_config = 30"
  by (simp_all add: batch_size_of_def sync_interval_of_def default_config_def)

text \<open>
  150 fixes are queued before the worker starts; 150 passes follow with no interval
  elapsed, the hundredth upload succeeds.
\<close>

lemma burst_of_150:
  assumes l: "length ds1 = 99" "length ds2 = 50" "length ps1 = 99" "length ps2 = 50"
    and ok: "upload_ok p100"
    and e1: "\<forall>p \<in> set ps1. elapsed_seconds t0 (clock p) < 30"
    and e2: "\<forall>p \<in> set ps2. elapsed_seconds (clock_after p100) (clock p) < 30"
  shows "worker_run default_config (ps1 @ [p100] @ ps2)
           (foldl queue_data (new_worker t0) (ds1 @ [d] @ ds2)) =
         \<lparr>sync_queue = [], batch = ds2, last_sync = clock_after p100,
          uploads = [(ds1 @ [d], True)]\<rparr>"
proof -
  let ?mk = "\<lambda>d. \<lparr>item_data = d, attempts = 0\<rparr>"
  define w0 where "w0 = \<lparr>sync_queue = map ?mk ds1 @ (?mk d # map ?mk ds2), batch = [],
                           last_sync = t0, uploads = []\<rparr>"
  define w1 where "w1 = \<lparr>sync_queue = ?mk d # map ?mk ds2, batch = ds1, last_sync = t0,
                           uploads = []\<rparr>"
  define w2 where "w2 = \<lparr>sync_queue = map ?mk ds2, batch = [],
                           last_sync = clock_after p100, uploads = [(ds1 @ [d], True)]\<rparr>"
  define w3 where "w3 = \<lparr>sync_queue = [], batch = ds2, last_sync = clock_after p100,
                           uploads = [(ds1 @ [d], True)]\<rparr>"
  have start: "foldl queue_data (new_worker t0) (ds1 @ [d] @ ds2) = w0"
    unfolding queue_data_all w0_def by (simp add: new_worker_def)
  have "worker_run default_config ps1 w0 =
          w0\<lparr>sync_queue := ?mk d # map ?mk ds2, batch := batch w0 @ map item_data (map ?mk ds1)\<rparr>"
    using l e1 by (intro worker_run_accumulate) (simp_all add: w0_def default_config_values)
  then have s1: "worker_run default_config ps1 w0 = w1"
    by (simp add: w0_def w1_def comp_def)
  have q1: "sync_queue w1 = ?mk d # map ?mk ds2" by (simp add: w1_def)
  have s2: "worker_pass default_config p100 w1 = w2"
    using l ok by (simp add: worker_pass_item [OF q1] default_config_values)
      (simp add: w1_def w2_def)
  have "worker_run default_config ps2 w2 =
          w2\<lparr>sync_queue := [], batch := batch w2 @ map item_data (map ?mk ds2)\<rparr>"
    using l e2 by (intro worker_run_accumulate) (simp_all add: w2_def default_config_values)
  then have s3: "worker_run default_config ps2 w2 = w3"
    by (simp add: w2_def w3_def comp_def)
  have "worker_run default_config (ps1 @ [p100] @ ps2) w0 = w3"
    by (simp only: worker_run_append s1 worker_run.simps s2 s3)
  then show ?thesis by (simp only: start w3_def)
qed


section \<open>One GPS update and one pass\<close>

lemma one_update_buffer:
  "map row_id (rows (data_buffer one_update)) = [1] \<and>
   map synced (rows (data_buffer one_update)) = [False] \<and>
   map retry_count (rows (data_buffer one_update)) = [0] \<and>
   conn_open (data_buffer one_update) \<and> max_variables (data_buffer one_update) = 32766"
  by (simp add: one_update_def handle_gps_update_def Let_def sample_fix_def
      insert_location_def extra_data_def core_keys_def nul_codec_def dict_get_def new_store_def
      sqlite_integer_def)

lemma one_update_worker:
  "firebase_sync one_update =
     \<lparr>sync_queue = [\<lparr>item_data = sample_fix @ [(''device_id'', PStr ''fleet-001'')],
                       attempts = 0\<rparr>],
      batch = [], last_sync = 0, uploads = []\<rparr>"
  by (simp add: one_update_def handle_gps_update_def Let_def sample_fix_def queue_data_def
      new_worker_def)

lemma eager_config_values:
  "batch_size_of eager_config = 1" "sync_interval_of eager_config = 30"
  by (simp_all add: batch_size_of_def sync_interval_of_def eager_config_def)

lemma one_update_flushes: "flushes eager_config p (firebase_sync one_update)"
  by (simp add: one_update_worker flushes_item [of _ "\<lparr>item_data = sample_fix @ [(''device_id'', PStr ''fleet-001'')], attempts = 0\<rparr>" "[]"]
      eager_config_values)

lemma one_update_good_pass:
  "worker_pass eager_config good_pass (firebase_sync one_update) =
     \<lparr>sync_queue = [], batch = [], last_sync = 2000000,
      uploads = [([sample_fix @ [(''device_id'', PStr ''fleet-001'')]], True)]\<rparr>"
  by (simp add: one_update_worker worker_pass_def Let_def eager_config_values good_pass_def)

lemma one_update_bad_pass:
  "worker_pass eager_config bad_pass (firebase_sync one_update) =
     \<lparr>sync_queue = [\<lparr>item_data = sample_fix @ [(''device_id'', PStr ''fleet-001'')],
                       attempts = 1\<rparr>],
      batch = [], last_sync = 0,
      uploads = [([sample_fix @ [(''device_id'', PStr ''fleet-001'')]], False)]\<rparr>"
  by (simp add: one_update_worker worker_pass_def Let_def eager_config_values bad_pass_def
      requeue_def)


lemma after_burst_timeout:
  "uploads (worker_pass cfg p
      \<lparr>sync_queue = [], batch = ds2, last_sync = t, uploads = [(ds, True)]\<rparr>) =
   (if ds2 = [] then [(ds, True)] else [(ds, True), (ds2, upload_ok p)])"
  by (simp add: worker_pass_def)


section \<open>Marking rows as synced\<close>

text \<open>
  What \<^verbatim>\<open>mark_synced(ids)\<close> does. It returns \<open>True\<close> exactly when the buffer has
  its connection, the ids can be bound and nothing goes wrong inside SQLite. Whenever
  the \<^verbatim>\<open>UPDATE\<close> is executed, every row whose id is in the list is the row it was
  with \<open>synced\<close> set, and every other row is the row it was; the table keeps its
  length and its order, and nothing else in the buffer changes. With a list that names
  no row of the table the buffer is left as it is. When the method returns \<open>False\<close>
  for another reason than a \<^verbatim>\<open>commit\<close> on a locked database, the buffer is left
  as it is.
\<close>

lemma mark_synced_effect:
  assumes "mark_synced fault s ids = (ok, s')"
  shows "(ok \<longleftrightarrow> conn_open s \<and> bindable_ids s ids \<and> fault = NoFault) \<and>
         conn_open s' = conn_open s \<and> seq s' = seq s \<and> vacuums s' = vacuums s \<and>
         max_variables s' = max_variables s \<and>
         length (rows s') = length (rows s) \<and>
         (\<forall>j < length (rows s).
            rows s' ! j =
              (if conn_open s \<and> bindable_ids s ids \<and> fault \<noteq> ExecuteFails \<and>
                  row_id (rows s ! j) \<in> set ids
               then (rows s ! j)\<lparr>synced := True\<rparr>
               else rows s ! j)) \<and>
         (set ids \<inter> row_id ` set (rows s) = {} \<longrightarrow> s' = s) \<and>
         (\<not> ok \<and> fault \<noteq> CommitBusy \<longrightarrow> s' = s)"
proof -
  have "map (\<lambda>r. if row_id r \<in> set ids then r\<lparr>synced := True\<rparr> else r) (rows s) = rows s"
    if "set ids \<inter> row_id ` set (rows s) = {}"
    using that by (intro map_idI) auto
  with assms show ?thesis
    by (cases fault) (auto simp: mark_synced_def Let_def split: if_splits)
qed

text \<open>
  \<^verbatim>\<open>mark_synced([2, 2**63])\<close> on the sample buffer: the second id is no integer of
  64 bits, \<^verbatim>\<open>execute\<close> raises, the method returns \<open>False\<close> and row 2 stays pending.
\<close>

lemma mark_synced_unbindable:
  "mark_synced NoFault sample_store [2, 2 ^ 63] = (False, sample_store)"
  by (simp add: mark_synced_def bindable_ids_def sqlite_integer_def)

text \<open>
  Claim C8 does not hold of the code. \<^verbatim>\<open>mark_synced\<close> executes the \<^verbatim>\<open>UPDATE\<close> and
  then commits, and its \<^verbatim>\<open>except\<close> branch returns \<open>False\<close> without a rollback.
  On the sample buffer, when \<^verbatim>\<open>commit\<close> finds the database locked in
  \<^verbatim>\<open>mark_synced([2])\<close>, the call fails and row 2 is synced all the same:
  \<^verbatim>\<open>get_unsynced_batch(10)\<close>, which returned the rows 3, 1 and 2 before the call,
  returns the rows 3 and 1 after it.
\<close>

theorem mark_synced_not_rolled_back:
  "\<not> fst (mark_synced CommitBusy sample_store [2]) \<and>
   map synced (rows sample_store) = [False, False, False] \<and>
   map synced (rows (snd (mark_synced CommitBusy sample_store [2]))) = [False, True, False] \<and>
   map (\<lambda>d. map_of d ''id'') (get_unsynced_batch nul_codec sample_store 10) =
     [Some (PInt 3), Some (PInt 1), Some (PInt 2)] \<and>
   map (\<lambda>d. map_of d ''id'')
       (get_unsynced_batch nul_codec (snd (mark_synced CommitBusy sample_store [2])) 10) =
     [Some (PInt 3), Some (PInt 1)]"
  by (simp add: mark_synced_def bindable_ids_def sqlite_integer_def Let_def
      get_unsynced_batch_def select_unsynced_def sql_limit_def claimable_def max_retry_def
      sample_store_def sample_row_def row_data_def row_columns_def)

section \<open>The batch of unsynced rows\<close>

text \<open>
  Claim C2. For every buffer and every limit \<open>n\<close>, a count: \<^verbatim>\<open>get_unsynced_batch(n)\<close>
  returns the dictionaries of the rows its query selects, one for each row and in the
  order of the rows, or the empty list from its \<^verbatim>\<open>except\<close> branch (without a
  connection, for a limit of \<^verbatim>\<open>2**63\<close> or more, and when the blob of a selected row
  cannot be read). The selected rows are rows of the table that are not synced and have
  fewer than \<open>max_retry\<close> retries; they are ordered by priority, highest first, and
  within a priority by timestamp, oldest first; and they are the first \<open>n\<close> of a list
  in that order that holds every such row of the table. So at most \<open>n\<close>
  dictionaries are returned, each built from a row that is not synced and under the
  retry bound. After three successful inserts into a new buffer with priorities 0, 0
  and 5, with a codec that reads back what it writes, \<^verbatim>\<open>get_unsynced_batch(2)\<close>
  returns the dictionary of the third row followed by that of the older of the first
  two (the first, unless the clock went back between the two inserts).
\<close>

theorem get_unsynced_batch_spec:
  "get_unsynced_batch C s (int n) =
     (if conn_open s \<and> sqlite_integer (int n) \<and>
         list_all (\<lambda>r. row_data C r \<noteq> None) (select_unsynced s (int n))
      then map (the \<circ> row_data C) (select_unsynced s (int n)) else []) \<and>
   (\<forall>r \<in> set (select_unsynced s (int n)).
      r \<in> set (rows s) \<and> \<not> synced r \<and> retry_count r < max_retry) \<and>
   sorted_wrt batch_order (select_unsynced s (int n)) \<and>
   (\<exists>every. (\<forall>r. count_list every r = count_list (filter claimable (rows s)) r) \<and>
      sorted_wrt batch_order every \<and> select_unsynced s (int n) = take n every) \<and>
   length (get_unsynced_batch C s (int n)) \<le> n \<and>
   (\<forall>d \<in> set (get_unsynced_batch C s (int n)).
      \<exists>r \<in> set (rows s). \<not> synced r \<and> retry_count r < max_retry \<and> row_data C r = Some d) \<and>
   (\<forall>t1 t2 t3 l1 l2 l3 s1 s2 s3.
      insert_location C t1 new_store l1 0 = (True, s1) \<and>
      insert_location C t2 s1 l2 0 = (True, s2) \<and>
      insert_location C t3 s2 l3 5 = (True, s3) \<and>
      reads_back C l1 \<and> reads_back C l2 \<and> reads_back C l3 \<longrightarrow>
      (\<exists>r1 r2 r3. rows s3 = [r1, r2, r3] \<and>
         map row_id (rows s3) = [1, 2, 3] \<and> map priority (rows s3) = [0, 0, 5] \<and>
         map timestamp (rows s3) =
           [sqlite_timestamp t1, sqlite_timestamp t2, sqlite_timestamp t3] \<and>
         get_unsynced_batch C s3 2 =
           [dict_update (row_columns r3) (extra_data l3),
            if sqlite_timestamp t1 \<le> sqlite_timestamp t2
            then dict_update (row_columns r1) (extra_data l1)
            else dict_update (row_columns r2) (extra_data l2)]))"
proof -
  have a: "\<forall>r \<in> set (select_unsynced s (int n)).
      r \<in> set (rows s) \<and> \<not> synced r \<and> retry_count r < max_retry"
    using select_unsynced_claimable [of _ s "int n"] by (auto simp: claimable_def)
  from select_unsynced_take [of s n]
  have b: "\<exists>every. (\<forall>r. count_list every r = count_list (filter claimable (rows s)) r) \<and>
      sorted_wrt batch_order every \<and> select_unsynced s (int n) = take n every"
    by blast
  have "length (get_unsynced_batch C s (int n)) \<le> length (select_unsynced s (int n))"
    by (rule get_unsynced_batch_length)
  also have "\<dots> \<le> n" using select_unsynced_length [of "int n" s] by simp
  finally have c: "length (get_unsynced_batch C s (int n)) \<le> n" .
  have d: "\<forall>d \<in> set (get_unsynced_batch C s (int n)).
      \<exists>r \<in> set (rows s). \<not> synced r \<and> retry_count r < max_retry \<and> row_data C r = Some d"
  proof
    fix d assume "d \<in> set (get_unsynced_batch C s (int n))"
    from get_unsynced_batch_member [OF this]
    obtain r where "r \<in> set (select_unsynced s (int n))" "row_data C r = Some d" by blast
    with a show "\<exists>r \<in> set (rows s).
        \<not> synced r \<and> retry_count r < max_retry \<and> row_data C r = Some d"
      by blast
  qed
  show ?thesis
    using get_unsynced_batch_eq [of C s "int n"] a select_unsynced_ordered [of s "int n"] b c d
      three_inserts_returned [of C]
    by blast
qed

text \<open>
  Three inserts of the sample fix with priorities 0, 0 and 5:
  \<^verbatim>\<open>get_unsynced_batch(2)\<close> returns two dictionaries, with the ids 3 and 1.
\<close>

theorem get_unsynced_batch_spec_witness:
  "insert_location nul_codec utc_sample new_store sample_fix 0 = (True, three_s1) \<and>
   insert_location nul_codec utc_sample three_s1 sample_fix 0 = (True, three_s2) \<and>
   insert_location nul_codec utc_sample three_s2 sample_fix 5 = (True, three_s3) \<and>
   reads_back nul_codec sample_fix \<and>
   map row_id (rows three_s3) = [1, 2, 3] \<and> map priority (rows three_s3) = [0, 0, 5] \<and>
   map (\<lambda>d. map_of d ''id'') (get_unsynced_batch nul_codec three_s3 2) =
     [Some (PInt 3), Some (PInt 1)] \<and>
   length (get_unsynced_batch nul_codec three_s3 2) = 2"
proof -
  note h = sample_three_inserts
  note rb = sample_fix_reads_back
  from get_unsynced_batch_spec [of nul_codec three_s3 2]
  have "\<forall>t1 t2 t3 l1 l2 l3 s1 s2 s3.
      insert_location nul_codec t1 new_store l1 0 = (True, s1) \<and>
      insert_location nul_codec t2 s1 l2 0 = (True, s2) \<and>
      insert_location nul_codec t3 s2 l3 5 = (True, s3) \<and>
      reads_back nul_codec l1 \<and> reads_back nul_codec l2 \<and> reads_back nul_codec l3 \<longrightarrow>
      (\<exists>r1 r2 r3. rows s3 = [r1, r2, r3] \<and>
         map row_id (rows s3) = [1, 2, 3] \<and> map priority (rows s3) = [0, 0, 5] \<and>
         map timestamp (rows s3) =
           [sqlite_timestamp t1, sqlite_timestamp t2, sqlite_timestamp t3] \<and>
         get_unsynced_batch nul_codec s3 2 =
           [dict_update (row_columns r3) (extra_data l3),
            if sqlite_timestamp t1 \<le> sqlite_timestamp t2
            then dict_update (row_columns r1) (extra_data l1)
            else dict_update (row_columns r2) (extra_data l2)])"
    by (elim conjE)
  from this [rule_format, of utc_sample sample_fix three_s1 utc_sample sample_fix three_s2
      utc_sample sample_fix three_s3] h rb
  have "\<exists>r1 r2 r3. rows three_s3 = [r1, r2, r3] \<and>
         map row_id (rows three_s3) = [1, 2, 3] \<and> map priority (rows three_s3) = [0, 0, 5] \<and>
         map timestamp (rows three_s3) =
           [sqlite_timestamp utc_sample, sqlite_timestamp utc_sample,
            sqlite_timestamp utc_sample] \<and>
         get_unsynced_batch nul_codec three_s3 2 =
           [dict_update (row_columns r3) (extra_data sample_fix),
            if sqlite_timestamp utc_sample \<le> sqlite_timestamp utc_sample
            then dict_update (row_columns r1) (extra_data sample_fix)
            else dict_update (row_columns r2) (extra_data sample_fix)]"
    by simp
  then obtain r1 r2 r3 where r: "rows three_s3 = [r1, r2, r3]"
      "map row_id (rows three_s3) = [1, 2, 3]" "map priority (rows three_s3) = [0, 0, 5]"
      "get_unsynced_batch nul_codec three_s3 2 =
         [dict_update (row_columns r3) (extra_data sample_fix),
          if sqlite_timestamp utc_sample \<le> sqlite_timestamp utc_sample
          then dict_update (row_columns r1) (extra_data sample_fix)
          else dict_update (row_columns r2) (extra_data sample_fix)]"
    by (elim exE conjE)
  from r(1,2) have ids: "row_id r1 = 1" "row_id r3 = 3" by simp_all
  have "map_of (dict_update (row_columns q) (extra_data sample_fix)) ''id'' =
          Some (PInt (row_id q))" for q
    by (simp add: sample_fix_extra row_columns_def)
  with r(4) ids
  have "map (\<lambda>d. map_of d ''id'') (get_unsynced_batch nul_codec three_s3 2) =
     [Some (PInt 3), Some (PInt 1)]"
    "length (get_unsynced_batch nul_codec three_s3 2) = 2"
    by simp_all
  with h rb r(2,3) show ?thesis by simp
qed

text \<open>
  A negative number is no count; SQLite reads a negative \<^verbatim>\<open>LIMIT\<close> as no limit, and
  the query then selects every row that is not synced and under the retry bound.
\<close>

lemma negative_limit_is_no_limit:
  "m < 0 \<Longrightarrow> set (select_unsynced s m) = {r \<in> set (rows s). claimable r}"
  by (auto simp: select_unsynced_def sql_limit_def)

section \<open>Synced is final\<close>

text \<open>
  Claim C3. In a buffer whose ids are in order (as in every buffer reached from a new
  one, see \<open>run_ops_ids_ok\<close>), take any sequence of the calls \<^verbatim>\<open>insert_location\<close>,
  \<^verbatim>\<open>get_unsynced_batch\<close>, \<^verbatim>\<open>mark_synced\<close>, \<^verbatim>\<open>increment_retry\<close>,
  \<^verbatim>\<open>cleanup_old_data\<close> and \<^verbatim>\<open>get_stats\<close>, whatever goes wrong inside SQLite in
  each of them. A row that is synced before the sequence is, if it is still in the
  table after it, synced. And once \<^verbatim>\<open>mark_synced([i])\<close> has succeeded for an id
  \<open>i\<close> that the buffer has given out, the row with id \<open>i\<close> is synced after every
  such sequence, no batch selects it, and every dictionary that
  \<^verbatim>\<open>get_unsynced_batch\<close> returns is built from a pending row with another id.
\<close>

theorem synced_is_terminal:
  assumes "ids_ok s"
  shows "(\<forall>r \<in> set (rows s). \<forall>r' \<in> set (rows (run_ops C s ops)).
            synced r \<and> row_id r' = row_id r \<longrightarrow> synced r') \<and>
         (\<forall>fault i s1. i \<le> seq s \<and> mark_synced fault s [i] = (True, s1) \<longrightarrow>
            (\<forall>r' \<in> set (rows (run_ops C s1 ops)). row_id r' = i \<longrightarrow> synced r') \<and>
            (\<forall>n. i \<notin> row_id ` set (select_unsynced (run_ops C s1 ops) n)) \<and>
            (\<forall>n. \<forall>d \<in> set (get_unsynced_batch C (run_ops C s1 ops) n).
               \<exists>r' \<in> set (rows (run_ops C s1 ops)).
                 row_id r' \<noteq> i \<and> \<not> synced r' \<and> row_data C r' = Some d))"
proof (intro conjI ballI allI impI)
  fix r r'
  assume "r \<in> set (rows s)" "r' \<in> set (rows (run_ops C s ops))"
    "synced r \<and> row_id r' = row_id r"
  then show "synced r'" using synced_stays [OF assms, of r r' C ops] by blast
next
  fix fault i s1 r'
  assume "i \<le> seq s \<and> mark_synced fault s [i] = (True, s1)"
    "r' \<in> set (rows (run_ops C s1 ops))" "row_id r' = i"
  then show "synced r'" using marked_stays [OF assms, of i fault s1 r' C ops] by blast
next
  fix fault i s1 n
  assume a: "i \<le> seq s \<and> mark_synced fault s [i] = (True, s1)"
  have "\<not> claimable r" if "r \<in> set (rows (run_ops C s1 ops))" "row_id r = i" for r
    using marked_stays [OF assms, of i fault s1 r C ops] a that by (simp add: claimable_def)
  then show "i \<notin> row_id ` set (select_unsynced (run_ops C s1 ops) n)"
    by (rule unclaimable_not_selected)
next
  fix fault i s1 n d
  assume a: "i \<le> seq s \<and> mark_synced fault s [i] = (True, s1)"
    and d: "d \<in> set (get_unsynced_batch C (run_ops C s1 ops) n)"
  have "\<not> claimable r" if "r \<in> set (rows (run_ops C s1 ops))" "row_id r = i" for r
    using marked_stays [OF assms, of i fault s1 r C ops] a that by (simp add: claimable_def)
  from batch_from_rows [OF this d]
  obtain q where "q \<in> set (rows (run_ops C s1 ops))" "row_id q \<noteq> i" "claimable q"
      "row_data C q = Some d" by blast
  then show "\<exists>r' \<in> set (rows (run_ops C s1 ops)).
      row_id r' \<noteq> i \<and> \<not> synced r' \<and> row_data C r' = Some d"
    by (auto simp: claimable_def)
qed

text \<open>
  On the sample buffer row 2 is in the batch before \<^verbatim>\<open>mark_synced([2])\<close> and not
  after it, whatever calls follow.
\<close>

theorem synced_is_terminal_witness:
  "ids_ok sample_store \<and> 2 \<le> seq sample_store \<and> fst (mark_synced NoFault sample_store [2]) \<and>
   2 \<in> row_id ` set (select_unsynced sample_store 10) \<and>
   2 \<notin> row_id ` set (select_unsynced
          (run_ops nul_codec (snd (mark_synced NoFault sample_store [2]))
             [IncrementRetry NoFault [2], GetUnsyncedBatch 10, MarkSynced CommitBusy [1]]) 10)"
proof -
  have f: "fst (mark_synced NoFault sample_store [2])" and le: "2 \<le> seq sample_store"
    by (simp_all add: mark_synced_def bindable_ids_def sqlite_integer_def sample_store_def)
  from f le have h: "2 \<le> seq sample_store \<and>
           mark_synced NoFault sample_store [2] = (True, snd (mark_synced NoFault sample_store [2]))"
    by (simp add: prod_eq_iff)
  have before: "2 \<in> row_id ` set (select_unsynced sample_store 10)"
    by (simp add: select_unsynced_prefix [of sample_store 10] sample_select_all sql_limit_def
        sample_row_def)
  from synced_is_terminal [OF sample_store_ids_ok, of nul_codec
      "[IncrementRetry NoFault [2], GetUnsyncedBatch 10, MarkSynced CommitBusy [1]]"] h
  have "2 \<notin> row_id ` set (select_unsynced
          (run_ops nul_codec (snd (mark_synced NoFault sample_store [2]))
             [IncrementRetry NoFault [2], GetUnsyncedBatch 10, MarkSynced CommitBusy [1]]) 10)"
    by blast
  with f le before sample_store_ids_ok show ?thesis by simp
qed

section \<open>Rows that ran out of retries\<close>

text \<open>
  Claim C7, as amended. \<^verbatim>\<open>get_stats()\<close> returns four entries under the keys
  \<^verbatim>\<open>total\<close>, \<^verbatim>\<open>unsynced\<close>, \<^verbatim>\<open>failed\<close> and \<^verbatim>\<open>size_bytes\<close>, and the empty
  dictionary when the buffer has no connection. Take a buffer
  whose ids are in order, an id \<open>i\<close> that it has given out, and a sequence of calls of
  which at least \<open>max_retry\<close> apply a retry to \<open>i\<close>: calls of
  \<^verbatim>\<open>increment_retry\<close> that name \<open>i\<close> and whose \<^verbatim>\<open>UPDATE\<close> is executed (a call
  without a connection, with an id that cannot be bound or with a failing
  \<^verbatim>\<open>execute\<close> applies nothing). After the sequence the row with id \<open>i\<close>, if it is
  still in the table, has as many retries more as calls applied one; no batch selects
  it, no returned dictionary is built from it, and it is one of the rows that the entry
  \<^verbatim>\<open>failed\<close> counts.
\<close>

theorem dead_letter_excluded_and_counted:
  assumes "ids_ok s" and "i \<le> seq s" and "max_retry \<le> retries_of s i ops"
  shows "(\<forall>size_bytes s0. map fst (get_stats size_bytes s0) =
            (if conn_open s0 then [''total'', ''unsynced'', ''failed'', ''size_bytes'']
             else [])) \<and>
         conn_open (run_ops C s ops) \<and>
         (\<forall>r \<in> set (rows s). \<forall>r' \<in> set (rows (run_ops C s ops)).
            row_id r = i \<and> row_id r' = i \<longrightarrow>
              retry_count r' = retry_count r + retries_of s i ops) \<and>
         (\<forall>n. i \<notin> row_id ` set (select_unsynced (run_ops C s ops) n)) \<and>
         (\<forall>n. \<forall>d \<in> set (get_unsynced_batch C (run_ops C s ops) n).
            \<exists>r' \<in> set (rows (run_ops C s ops)). row_id r' \<noteq> i \<and> row_data C r' = Some d) \<and>
         (\<forall>r' \<in> set (rows (run_ops C s ops)). row_id r' = i \<longrightarrow>
            r' \<in> set (filter (\<lambda>r. max_retry \<le> retry_count r) (rows (run_ops C s ops)))) \<and>
         map_of (get_stats size_bytes (run_ops C s ops)) ''failed'' =
           Some (PInt (int (length (filter (\<lambda>r. max_retry \<le> retry_count r)
                                      (rows (run_ops C s ops))))))"
proof -
  from assms(3) have "0 < retries_of s i ops" by (simp add: max_retry_def)
  then have "conn_open s" by (rule retried_store_open)
  then have co: "conn_open (run_ops C s ops)" by (simp add: run_ops_conn_open)
  have cnt: "retry_count r' = retry_count r + retries_of s i ops"
    if "r \<in> set (rows s)" "r' \<in> set (rows (run_ops C s ops))" "row_id r = i" "row_id r' = i"
    for r r'
    using retried_row_count [OF assms(1) that(1,2)] that(3,4) by simp
  have dead: "max_retry \<le> retry_count r'"
    if "r' \<in> set (rows (run_ops C s ops))" "row_id r' = i" for r'
    using retried_row [OF assms that] .
  then have nc: "\<not> claimable r" if "r \<in> set (rows (run_ops C s ops))" "row_id r = i" for r
    using that by (fastforce simp: claimable_def)
  have sel: "i \<notin> row_id ` set (select_unsynced (run_ops C s ops) n)" for n
    using nc by (rule unclaimable_not_selected)
  have bat: "\<exists>r' \<in> set (rows (run_ops C s ops)). row_id r' \<noteq> i \<and> row_data C r' = Some d"
    if "d \<in> set (get_unsynced_batch C (run_ops C s ops) n)" for n d
    using batch_from_rows [OF nc that] by blast
  have keys: "map fst (get_stats size_bytes s0) =
      (if conn_open s0 then [''total'', ''unsynced'', ''failed'', ''size_bytes''] else [])"
    for size_bytes s0
    by (simp add: get_stats_def)
  show ?thesis
    using keys co get_stats_failed [OF co] cnt sel bat dead by simp
qed

text \<open>
  On the sample buffer, after a sequence of calls of which five apply a retry to row 1,
  row 1 has left the batch and \<^verbatim>\<open>failed\<close> is 1.
\<close>

theorem dead_letter_excluded_and_counted_witness:
  "ids_ok sample_store \<and> 1 \<le> seq sample_store \<and>
   max_retry \<le> retries_of sample_store 1 five_retries \<and>
   1 \<in> row_id ` set (select_unsynced sample_store 10) \<and>
   1 \<notin> row_id ` set (select_unsynced (run_ops nul_codec sample_store five_retries) 10) \<and>
   map_of (get_stats 4096 (run_ops nul_codec sample_store five_retries)) ''failed'' =
     Some (PInt 1)"
proof -
  have le: "1 \<le> seq sample_store"
    by (simp add: sample_store_def)
  have n: "max_retry \<le> retries_of sample_store 1 five_retries"
    by (simp add: max_retry_def five_retries_count)
  have before: "1 \<in> row_id ` set (select_unsynced sample_store 10)"
    by (simp add: select_unsynced_prefix [of sample_store 10] sample_select_all sql_limit_def
        sample_row_def)
  from dead_letter_excluded_and_counted [OF sample_store_ids_ok le n,
      where C = nul_codec and size_bytes = 4096]
  have excl: "1 \<notin> row_id ` set (select_unsynced (run_ops nul_codec sample_store five_retries) 10)"
    and cnt: "map_of (get_stats 4096 (run_ops nul_codec sample_store five_retries)) ''failed'' =
      Some (PInt (int (length (filter (\<lambda>r. max_retry \<le> retry_count r)
                                 (rows (run_ops nul_codec sample_store five_retries))))))"
    by blast+
  have "length (filter (\<lambda>r. max_retry \<le> retry_count r)
                  (rows (run_ops nul_codec sample_store five_retries))) = 1"
    by (simp add: five_retries_run max_retry_def sample_row_def)
  with cnt have "map_of (get_stats 4096 (run_ops nul_codec sample_store five_retries)) ''failed'' =
     Some (PInt 1)" by simp
  with sample_store_ids_ok le n before excl show ?thesis by simp
qed

text \<open>
  The claim as stated has \<^verbatim>\<open>stats()\<close> return the keys \<^verbatim>\<open>total\<close>, \<^verbatim>\<open>pending\<close>,
  \<^verbatim>\<open>dead_lettered\<close> and \<^verbatim>\<open>size_bytes\<close>. The dictionary that \<^verbatim>\<open>get_stats()\<close>
  returns has no key \<^verbatim>\<open>pending\<close> and no key \<^verbatim>\<open>dead_lettered\<close>: a lookup of
  \<^verbatim>\<open>dead_lettered\<close> finds nothing, also when a row has run out of retries. Without a
  connection the dictionary is empty.
\<close>

theorem stats_keys_counterexample:
  "map fst (get_stats 4096 (run_ops nul_codec sample_store five_retries)) =
     [''total'', ''unsynced'', ''failed'', ''size_bytes''] \<and>
   ''pending'' \<notin> set (map fst (get_stats 4096 (run_ops nul_codec sample_store five_retries))) \<and>
   ''dead_lettered'' \<notin>
     set (map fst (get_stats 4096 (run_ops nul_codec sample_store five_retries))) \<and>
   map_of (get_stats 4096 (run_ops nul_codec sample_store five_retries)) ''dead_lettered'' =
     None \<and>
   get_stats 4096 (close sample_store) = []"
proof -
  have "conn_open (run_ops nul_codec sample_store five_retries)"
    by (simp add: run_ops_conn_open sample_store_def)
  then show ?thesis by (simp add: get_stats_def close_def)
qed

section \<open>Inserting a location\<close>

text \<open>
  Claim C4, as amended. \<^verbatim>\<open>insert_location\<close> returns a Boolean. It returns
  \<open>False\<close> when the location has no latitude or no longitude, and whenever it
  returns \<open>False\<close> the buffer is unchanged. When it returns \<open>True\<close> it has added
  one row at the end of the table, under the next id, pending and with no retries, with
  the given priority and the latitude and longitude of the location; speed, heading,
  altitude, satellites and hdop are 0 where the location has no such key; and the blob of
  the row is the compressed serialisation of the entries of the location other than
  latitude, longitude, speed, heading and timestamp, when there are any.
\<close>

theorem insert_location_contract:
  assumes "insert_location C now s location prio = (ok, s')"
  shows "(map_of location ''latitude'' = None \<or> map_of location ''longitude'' = None
            \<longrightarrow> \<not> ok) \<and>
         (\<not> ok \<longrightarrow> s' = s) \<and>
         (ok \<longrightarrow>
            (\<exists>r. rows s' = rows s @ [r] \<and> row_id r = seq s + 1 \<and> seq s' = seq s + 1 \<and>
                 \<not> synced r \<and> retry_count r = 0 \<and> priority r = prio \<and>
                 timestamp r = sqlite_timestamp now \<and>
                 map_of location ''latitude'' = Some (latitude r) \<and>
                 map_of location ''longitude'' = Some (longitude r) \<and>
                 (map_of location ''speed'' = None \<longrightarrow> speed r = PInt 0) \<and>
                 (map_of location ''heading'' = None \<longrightarrow> heading r = PInt 0) \<and>
                 (map_of location ''altitude'' = None \<longrightarrow> altitude r = PInt 0) \<and>
                 (map_of location ''satellites'' = None \<longrightarrow> satellites r = PInt 0) \<and>
                 (map_of location ''hdop'' = None \<longrightarrow> hdop r = PInt 0) \<and>
                 (extra_data location = [] \<longrightarrow> compressed_data r = None) \<and>
                 (extra_data location \<noteq> [] \<longrightarrow>
                    compressed_data r \<noteq> None \<and>
                    compressed_data r = compress_json C (extra_data location))))"
  using insert_location_cases [OF assms]
  by (auto simp: dict_get_def)

text \<open>
  The sample fix is inserted into a new buffer as row 1 with the five defaults and the
  blob of its one extra attribute; a location without latitude is refused and the
  buffer stays as it was.
\<close>

theorem insert_location_contract_witness:
  "fst (insert_location nul_codec utc_sample new_store sample_fix 0) \<and>
   (\<exists>r. rows (snd (insert_location nul_codec utc_sample new_store sample_fix 0)) = [r] \<and>
        row_id r = 1 \<and> speed r = PInt 0 \<and> heading r = PInt 0 \<and> altitude r = PInt 0 \<and>
        satellites r = PInt 0 \<and> hdop r = PInt 0 \<and> latitude r = PFloat 51.5 \<and>
        compressed_data r = Some (''heading_raw'' @ [CHR 0x00] @ ''123.4'' @ [CHR 0x00])) \<and>
   insert_location nul_codec utc_sample new_store [(''longitude'', PFloat 0.25)] 0 =
     (False, new_store)"
proof -
  have h: "insert_location nul_codec utc_sample new_store sample_fix 0 =
          (True, snd (insert_location nul_codec utc_sample new_store sample_fix 0))"
    using sample_fix_insert by (simp add: prod_eq_iff)
  have m: "map_of sample_fix ''speed'' = None" "map_of sample_fix ''heading'' = None"
    "map_of sample_fix ''altitude'' = None" "map_of sample_fix ''satellites'' = None"
    "map_of sample_fix ''hdop'' = None" "map_of sample_fix ''latitude'' = Some (PFloat 51.5)"
    by (simp_all add: sample_fix_def)
  have x: "extra_data sample_fix \<noteq> []"
    by (simp add: sample_fix_extra)
  from insert_location_contract [OF h] m x sample_fix_blob
  have "\<exists>r. rows (snd (insert_location nul_codec utc_sample new_store sample_fix 0)) = [r] \<and>
        row_id r = 1 \<and> speed r = PInt 0 \<and> heading r = PInt 0 \<and> altitude r = PInt 0 \<and>
        satellites r = PInt 0 \<and> hdop r = PInt 0 \<and> latitude r = PFloat 51.5 \<and>
        compressed_data r = Some (''heading_raw'' @ [CHR 0x00] @ ''123.4'' @ [CHR 0x00])"
    by (auto simp: new_store_def)
  moreover
  have h2: "insert_location nul_codec utc_sample new_store [(''longitude'', PFloat 0.25)] 0 =
     (False, snd (insert_location nul_codec utc_sample new_store [(''longitude'', PFloat 0.25)] 0))"
    using missing_latitude [of nul_codec utc_sample new_store] by simp
  from insert_location_contract [OF h2]
  have "snd (insert_location nul_codec utc_sample new_store [(''longitude'', PFloat 0.25)] 0) =
          new_store" by simp
  ultimately show ?thesis
    using sample_fix_insert missing_latitude [of nul_codec utc_sample new_store] by simp
qed

text \<open>
  The claim as stated has the call return the id of the new row and fail with an error
  otherwise. Two successful inserts, which create the rows 1 and 2, return the same
  value, \<open>True\<close>; the insert of a location without latitude returns \<open>False\<close>.
\<close>

theorem insert_returns_no_id_counterexample:
  "fst (insert_location nul_codec utc_sample new_store sample_fix 0) =
   fst (insert_location nul_codec utc_sample
          (snd (insert_location nul_codec utc_sample new_store sample_fix 0)) sample_fix 0) \<and>
   map row_id (rows (snd (insert_location nul_codec utc_sample
          (snd (insert_location nul_codec utc_sample new_store sample_fix 0)) sample_fix 0))) =
     [1, 2] \<and>
   insert_location nul_codec utc_sample new_store [(''longitude'', PFloat 0.25)] 0 =
     (False, new_store)"
proof -
  let ?s1 = "snd (insert_location nul_codec utc_sample new_store sample_fix 0)"
  let ?s2 = "snd (insert_location nul_codec utc_sample ?s1 sample_fix 0)"
  have h1: "insert_location nul_codec utc_sample new_store sample_fix 0 = (True, ?s1)"
    using sample_fix_insert by (simp add: prod_eq_iff)
  have h2: "insert_location nul_codec utc_sample ?s1 sample_fix 0 = (True, ?s2)"
    using sample_fix_insert_twice by (simp add: prod_eq_iff)
  from insert_location_cases [OF h1]
  obtain r1 where r1: "rows ?s1 = [r1]" "row_id r1 = 1" "seq ?s1 = 1"
    by (auto simp: new_store_def)
  from insert_location_cases [OF h2] r1
  have "map row_id (rows ?s2) = [1, 2]" by auto
  then show ?thesis
    using sample_fix_insert sample_fix_insert_twice
      missing_latitude [of nul_codec utc_sample new_store] by simp
qed

section \<open>Extra attributes come back as they went in\<close>

text \<open>
  Claim C9. Take a location with distinct keys, an entry of it whose key is none of
  latitude, longitude, speed, heading and timestamp, and a codec that reads back what it
  wrote for this location, in a buffer whose blobs can all be read. When the insert
  succeeds, the new row is pending, its blob is the compressed serialisation of the
  extra attributes, and the dictionary built from the row has the same value under the
  same key; whenever \<^verbatim>\<open>get_unsynced_batch\<close>, called with a limit that SQLite can
  bind, selects the row, that dictionary is in the list it returns.
\<close>

theorem extra_attributes_round_trip:
  assumes "insert_location C now s location prio = (True, s')"
    and "distinct (map fst location)"
    and "(k, v) \<in> set location" and "k \<notin> set core_keys"
    and "\<forall>b. compress_json C (extra_data location) = Some b \<longrightarrow>
               b \<noteq> [] \<and> decompress_json C b = Some (extra_data location)"
    and "decodable C s"
  shows "\<exists>r d. rows s' = rows s @ [r] \<and> \<not> synced r \<and> retry_count r = 0 \<and>
           compressed_data r = compress_json C (extra_data location) \<and>
           compressed_data r \<noteq> None \<and>
           row_data C r = Some d \<and> map_of d k = Some v \<and>
           (\<forall>n. sqlite_integer n \<and> r \<in> set (select_unsynced s' n) \<longrightarrow>
              d \<in> set (get_unsynced_batch C s' n))"
proof -
  have rt: "\<And>b. compress_json C (extra_data location) = Some b \<Longrightarrow>
               b \<noteq> [] \<and> decompress_json C b = Some (extra_data location)"
    using assms(5) by blast
  from assms(3,4) have mem: "(k, v) \<in> set (extra_data location)"
    by (simp add: extra_data_member)
  then have ne: "extra_data location \<noteq> []" by auto
  from inserted_row_data [OF assms(1,2) rt]
  obtain r where r: "rows s' = rows s @ [r]" "\<not> synced r" "retry_count r = 0"
      "compressed_data r =
         (if extra_data location = [] then None else compress_json C (extra_data location))"
      "row_data C r = Some (dict_update (row_columns r) (extra_data location))"
    by blast
  from insert_location_cases [OF assms(1)] ne
  have some: "compress_json C (extra_data location) \<noteq> None" by auto
  have val: "map_of (dict_update (row_columns r) (extra_data location)) k = Some v"
    using extra_data_distinct [OF assms(2)] mem by (rule dict_update_overrides)
  from insert_location_decodable [OF assms(1,2) rt assms(6)]
  have ok: "decodable C s'" "conn_open s'" by simp_all
  have "d \<in> set (get_unsynced_batch C s' n)"
    if "sqlite_integer n" "r \<in> set (select_unsynced s' n)" "row_data C r = Some d" for n d
    using selected_row_returned [OF ok(2,1) that] .
  with r ne some val show ?thesis by auto
qed

text \<open>
  The sample fix carries \<^verbatim>\<open>{"heading_raw": "123.4"}\<close>; inserted into a new buffer,
  it comes back from \<^verbatim>\<open>get_unsynced_batch(1)\<close> with that attribute.
\<close>

theorem extra_attributes_round_trip_witness:
  "insert_location nul_codec utc_sample new_store sample_fix 0 = (True, three_s1) \<and>
   distinct (map fst sample_fix) \<and> (''heading_raw'', PStr ''123.4'') \<in> set sample_fix \<and>
   ''heading_raw'' \<notin> set core_keys \<and> decodable nul_codec new_store \<and>
   (\<exists>d \<in> set (get_unsynced_batch nul_codec three_s1 1).
      map_of d ''heading_raw'' = Some (PStr ''123.4''))"
proof -
  have h: "insert_location nul_codec utc_sample new_store sample_fix 0 = (True, three_s1)"
    using sample_three_inserts by simp
  have d: "distinct (map fst sample_fix)" and m: "(''heading_raw'', PStr ''123.4'') \<in> set sample_fix"
    and c: "''heading_raw'' \<notin> set core_keys"
    by (simp_all add: sample_fix_def core_keys_def)
  have rt: "\<forall>b. compress_json nul_codec (extra_data sample_fix) = Some b \<longrightarrow>
               b \<noteq> [] \<and> decompress_json nul_codec b = Some (extra_data sample_fix)"
    using sample_fix_blob sample_fix_decode by (auto simp: sample_fix_extra)
  from extra_attributes_round_trip [OF h d m c rt new_store_decodable]
  obtain r d where r: "rows three_s1 = rows new_store @ [r]" "\<not> synced r" "retry_count r = 0"
      "map_of d ''heading_raw'' = Some (PStr ''123.4'')"
      "\<forall>n. sqlite_integer n \<and> r \<in> set (select_unsynced three_s1 n) \<longrightarrow>
         d \<in> set (get_unsynced_batch nul_codec three_s1 n)"
    by blast
  from r(1) have "rows three_s1 = [r]" by (simp add: new_store_def)
  from single_row_selected [OF this r(2,3), of 1] have "r \<in> set (select_unsynced three_s1 1)"
    by simp
  moreover have "sqlite_integer 1" by (simp add: sqlite_integer_def)
  ultimately have "d \<in> set (get_unsynced_batch nul_codec three_s1 1)" using r(5) by blast
  with r(4) have "\<exists>d \<in> set (get_unsynced_batch nul_codec three_s1 1).
      map_of d ''heading_raw'' = Some (PStr ''123.4'')" by blast
  with h d m c new_store_decodable show ?thesis by simp
qed

section \<open>Extra attributes that are named like a column\<close>

text \<open>
  Claim C10. The keys of the returned dictionary that \<^verbatim>\<open>insert_location\<close> does not
  leave out of the extra data are \<^verbatim>\<open>id\<close>, \<^verbatim>\<open>device_id\<close>, \<^verbatim>\<open>altitude\<close>,
  \<^verbatim>\<open>satellites\<close> and \<^verbatim>\<open>hdop\<close>. When the location has an entry under one of
  them, the entry goes into the blob, and the dictionary built from the new row has the
  value of the location under that key, written over the entry of the column. For
  \<^verbatim>\<open>id\<close> the column is the id the store gave the row, so a location that brings
  another \<^verbatim>\<open>id\<close> comes back under that one.
\<close>

theorem column_named_extra_overrides:
  assumes "insert_location C now s location prio = (True, s')"
    and "distinct (map fst location)"
    and "(k, v) \<in> set location"
    and "k \<in> set [''id'', ''device_id'', ''altitude'', ''satellites'', ''hdop'']"
    and "\<forall>b. compress_json C (extra_data location) = Some b \<longrightarrow>
               b \<noteq> [] \<and> decompress_json C b = Some (extra_data location)"
    and "decodable C s"
  shows "\<exists>r d. rows s' = rows s @ [r] \<and> row_id r = seq s + 1 \<and>
           \<not> synced r \<and> retry_count r = 0 \<and>
           k \<in> set (map fst (row_columns r)) \<and>
           (k, v) \<in> set (extra_data location) \<and>
           compressed_data r = compress_json C (extra_data location) \<and>
           row_data C r = Some d \<and> map_of d k = Some v \<and>
           (k = ''id'' \<and> v \<noteq> PInt (row_id r) \<longrightarrow>
              map_of d ''id'' \<noteq> map_of (row_columns r) ''id'') \<and>
           (\<forall>n. sqlite_integer n \<and> r \<in> set (select_unsynced s' n) \<longrightarrow>
              d \<in> set (get_unsynced_batch C s' n))"
proof -
  have rt: "\<And>b. compress_json C (extra_data location) = Some b \<Longrightarrow>
               b \<noteq> [] \<and> decompress_json C b = Some (extra_data location)"
    using assms(5) by blast
  from assms(4) have nc: "k \<notin> set core_keys" by (auto simp: core_keys_def)
  with assms(3) have mem: "(k, v) \<in> set (extra_data location)"
    by (simp add: extra_data_member)
  then have ne: "extra_data location \<noteq> []" by auto
  from inserted_row_data [OF assms(1,2) rt]
  obtain r where r: "rows s' = rows s @ [r]" "row_id r = seq s + 1" "\<not> synced r"
      "retry_count r = 0"
      "compressed_data r =
         (if extra_data location = [] then None else compress_json C (extra_data location))"
      "row_data C r = Some (dict_update (row_columns r) (extra_data location))"
    by blast
  have col: "k \<in> set (map fst (row_columns r))"
    using assms(4) by (auto simp: row_columns_keys)
  have val: "map_of (dict_update (row_columns r) (extra_data location)) k = Some v"
    using extra_data_distinct [OF assms(2)] mem by (rule dict_update_overrides)
  from insert_location_decodable [OF assms(1,2) rt assms(6)]
  have ok: "decodable C s'" "conn_open s'" by simp_all
  have "d \<in> set (get_unsynced_batch C s' n)"
    if "sqlite_integer n" "r \<in> set (select_unsynced s' n)" "row_data C r = Some d" for n d
    using selected_row_returned [OF ok(2,1) that] .
  with r ne col mem val show ?thesis by (auto simp: row_columns_id)
qed

text \<open>
  The fix with \<^verbatim>\<open>"id": "77"\<close> becomes row 1 of a new buffer and comes back from
  \<^verbatim>\<open>get_unsynced_batch(1)\<close> with the id \<^verbatim>\<open>"77"\<close>.
\<close>

theorem column_named_extra_overrides_witness:
  "insert_location nul_codec utc_sample new_store colliding_fix 0 = (True, collided) \<and>
   distinct (map fst colliding_fix) \<and> (''id'', PStr ''77'') \<in> set colliding_fix \<and>
   decodable nul_codec new_store \<and>
   map row_id (rows collided) = [1] \<and>
   (\<exists>d \<in> set (get_unsynced_batch nul_codec collided 1). map_of d ''id'' = Some (PStr ''77''))"
proof -
  have h: "insert_location nul_codec utc_sample new_store colliding_fix 0 = (True, collided)"
    using colliding_fix_insert by (simp add: prod_eq_iff collided_def)
  have d: "distinct (map fst colliding_fix)" and m: "(''id'', PStr ''77'') \<in> set colliding_fix"
    by (simp_all add: colliding_fix_def)
  have k: "''id'' \<in> set [''id'', ''device_id'', ''altitude'', ''satellites'', ''hdop'']"
    by simp
  have rt: "\<forall>b. compress_json nul_codec (extra_data colliding_fix) = Some b \<longrightarrow>
               b \<noteq> [] \<and> decompress_json nul_codec b = Some (extra_data colliding_fix)"
    using colliding_fix_blob colliding_fix_decode by (auto simp: colliding_fix_extra)
  from column_named_extra_overrides [OF h d m k rt new_store_decodable]
  obtain r d where r: "rows collided = rows new_store @ [r]" "row_id r = seq new_store + 1"
      "\<not> synced r" "retry_count r = 0" "map_of d ''id'' = Some (PStr ''77'')"
      "\<forall>n. sqlite_integer n \<and> r \<in> set (select_unsynced collided n) \<longrightarrow>
         d \<in> set (get_unsynced_batch nul_codec collided n)"
    by blast
  from r(1) have one: "rows collided = [r]" by (simp add: new_store_def)
  from single_row_selected [OF this r(3,4), of 1] have "r \<in> set (select_unsynced collided 1)"
    by simp
  moreover have "sqlite_integer 1" by (simp add: sqlite_integer_def)
  ultimately have "d \<in> set (get_unsynced_batch nul_codec collided 1)" using r(6) by blast
  with r(5) have "\<exists>d \<in> set (get_unsynced_batch nul_codec collided 1).
      map_of d ''id'' = Some (PStr ''77'')" by blast
  moreover from one r(2) have "map row_id (rows collided) = [1]" by (simp add: new_store_def)
  ultimately show ?thesis using h d m new_store_decodable by simp
qed

section \<open>Cleaning up old rows\<close>

text \<open>
  Claim C6 does not hold of the code. The \<^verbatim>\<open>DELETE\<close> compares the stored text
  \<^verbatim>\<open>2024-01-08 23:00:00\<close> with the bound text \<^verbatim>\<open>2024-01-08T01:00:00\<close>; they agree
  up to the date, and a blank sorts before \<^verbatim>\<open>T\<close>. So \<^verbatim>\<open>cleanup_old_data(7)\<close>, run
  when the local clock shows 01:00 on 15 January, deletes the delivered row of 23:00 UTC
  on 8 January, which is less than seven days old in every time zone. And on a
  device five hours behind UTC, \<^verbatim>\<open>cleanup_old_data(0)\<close> at 20:00 local time keeps
  the row delivered half an hour before, whose UTC date is already the next day.
\<close>

theorem cleanup_deletes_by_text_order:
  "sqlite_timestamp utc_sample = ''2024-01-08 23:00:00'' \<and>
   minus_days local_sample 7 = Some (local_sample\<lparr>day := 8\<rparr>) \<and>
   isoformat (local_sample\<lparr>day := 8\<rparr>) = ''2024-01-08T01:00:00'' \<and>
   cleanup_old_data local_sample delivered_store 7 =
     (1, delivered_store\<lparr>rows := [], vacuums := 1\<rparr>) \<and>
   cleanup_old_data local_evening evening_store 0 = (0, evening_store)"
proof -
  have a: "cleanup_old_data local_sample delivered_store 7 =
     (1, delivered_store\<lparr>rows := [], vacuums := 1\<rparr>)"
    by (simp add: cleanup_old_data_def local_sample_cutoff local_sample_cutoff_text
        delivered_store_def sample_row_def expired_def)
  have b: "cleanup_old_data local_evening evening_store 0 = (0, evening_store)"
    by (simp add: cleanup_old_data_def local_evening_cutoff local_evening_cutoff_text
        evening_store_def sample_row_def expired_def)
  from a b utc_sample_text local_sample_cutoff local_sample_cutoff_text show ?thesis by simp
qed

section \<open>What the sync worker does with the outcome of an upload\<close>

text \<open>
  \<^verbatim>\<open>sync_worker\<close> has no reference to the buffer: a pass changes the worker only.
\<close>

lemma sync_pass_buffer:
  "data_buffer (sync_pass cfg p f) = data_buffer f \<and>
   firebase_sync (sync_pass cfg p f) = worker_pass cfg p (firebase_sync f)"
  by (simp add: sync_pass_def)

text \<open>
  What a pass does with the outcome of \<^verbatim>\<open>batch_upload\<close>. When the upload succeeds,
  the batch is emptied and \<^verbatim>\<open>last_sync\<close> is set. When an upload made on the arrival
  of an item fails, the batch is emptied and its members, the new item included, are
  put back at the end of the in-memory queue, in order. When an upload made on a queue
  timeout fails, the batch is kept as it is for the next pass.
\<close>

lemma worker_pass_outcome:
  "(flushes cfg p w \<and> upload_ok p \<longrightarrow>
      batch (worker_pass cfg p w) = [] \<and>
      last_sync (worker_pass cfg p w) = clock_after p \<and>
      sync_queue (worker_pass cfg p w) = tl (sync_queue w) \<and>
      uploads (worker_pass cfg p w) =
        uploads w @ [(batch w @ map item_data (take 1 (sync_queue w)), True)]) \<and>
   (\<forall>item rest. flushes cfg p w \<and> \<not> upload_ok p \<and> sync_queue w = item # rest \<longrightarrow>
      batch (worker_pass cfg p w) = [] \<and>
      last_sync (worker_pass cfg p w) = last_sync w \<and>
      map item_data (sync_queue (worker_pass cfg p w)) =
        map item_data rest @ batch w @ [item_data item] \<and>
      uploads (worker_pass cfg p w) = uploads w @ [(batch w @ [item_data item], False)]) \<and>
   (flushes cfg p w \<and> \<not> upload_ok p \<and> sync_queue w = [] \<longrightarrow>
      worker_pass cfg p w = w\<lparr>uploads := uploads w @ [(batch w, False)]\<rparr>)"
proof -
  have b: "batch (worker_pass cfg p w) = [] \<and>
      last_sync (worker_pass cfg p w) = clock_after p \<and>
      sync_queue (worker_pass cfg p w) = tl (sync_queue w) \<and>
      uploads (worker_pass cfg p w) =
        uploads w @ [(batch w @ map item_data (take 1 (sync_queue w)), True)]"
    if "flushes cfg p w" "upload_ok p"
  proof (cases "sync_queue w")
    case Nil
    with that show ?thesis by (simp add: flushes_empty worker_pass_empty)
  next
    case (Cons item rest)
    with that show ?thesis by (simp add: flushes_item worker_pass_item)
  qed
  have c: "batch (worker_pass cfg p w) = [] \<and>
      last_sync (worker_pass cfg p w) = last_sync w \<and>
      map item_data (sync_queue (worker_pass cfg p w)) =
        map item_data rest @ batch w @ [item_data item] \<and>
      uploads (worker_pass cfg p w) = uploads w @ [(batch w @ [item_data item], False)]"
    if "flushes cfg p w" "\<not> upload_ok p" "sync_queue w = item # rest" for item rest
    using that by (simp add: flushes_item worker_pass_item requeue_def comp_def)
  have d: "worker_pass cfg p w = w\<lparr>uploads := uploads w @ [(batch w, False)]\<rparr>"
    if "flushes cfg p w" "\<not> upload_ok p" "sync_queue w = []"
    using that by (simp add: flushes_empty worker_pass_empty)
  from b c d show ?thesis by blast
qed

text \<open>
  Claim C1 does not hold of the code. The buffer has the methods \<^verbatim>\<open>mark_synced\<close> and
  \<^verbatim>\<open>increment_retry\<close>, and its cleanup deletes synced rows only, but nothing calls
  the two methods. After one GPS update the fix is row 1 of the buffer and the only
  item of the queue. The pass that uploads it successfully leaves row 1 unsynced, where
  \<^verbatim>\<open>mark_synced([1])\<close> would have set the flag; the pass whose upload fails leaves
  its retry count at 0, where \<^verbatim>\<open>increment_retry([1])\<close> would have made it 1.
\<close>

theorem worker_leaves_buffer_untouched:
  "map row_id (rows (data_buffer one_update)) = [1] \<and>
   map snd (uploads (firebase_sync (sync_pass eager_config good_pass one_update))) = [True] \<and>
   map synced (rows (data_buffer (sync_pass eager_config good_pass one_update))) = [False] \<and>
   map synced (rows (snd (mark_synced NoFault (data_buffer one_update) [1]))) = [True] \<and>
   map snd (uploads (firebase_sync (sync_pass eager_config bad_pass one_update))) = [False] \<and>
   map retry_count (rows (data_buffer (sync_pass eager_config bad_pass one_update))) = [0] \<and>
   map retry_count (rows (snd (increment_retry NoFault (data_buffer one_update) [1]))) = [1]"
proof -
  have b: "bindable_ids (data_buffer one_update) [1]"
    using one_update_buffer by (simp add: bindable_ids_def sqlite_integer_def)
  have m: "map synced (rows (snd (mark_synced NoFault (data_buffer one_update) [1]))) = [True]"
    using one_update_buffer b
    by (cases "rows (data_buffer one_update)") (auto simp: mark_synced_def)
  have r: "map retry_count (rows (snd (increment_retry NoFault (data_buffer one_update) [1]))) = [1]"
    using one_update_buffer b
    by (cases "rows (data_buffer one_update)") (auto simp: increment_retry_def)
  from m r one_update_buffer show ?thesis
    by (simp add: sync_pass_def one_update_good_pass one_update_bad_pass)
qed

section \<open>When the sync worker uploads\<close>

text \<open>
  Claim C5, as amended. On the arrival of an item the worker adds it to the batch and
  uploads exactly when the batch then holds at least \<^verbatim>\<open>batch_size\<close> items or
  \<^verbatim>\<open>(datetime.now() - last_sync).seconds\<close> is at least \<^verbatim>\<open>sync_interval\<close>. That
  field is the time since \<^verbatim>\<open>last_sync\<close> modulo one day, in whole seconds; so while
  the time since \<^verbatim>\<open>last_sync\<close> is not negative and less than a day, the worker
  uploads exactly when the batch has reached the batch size or the whole seconds
  elapsed since \<^verbatim>\<open>last_sync\<close> are at least \<^verbatim>\<open>sync_interval\<close>. When the queue has
  stayed empty for a second, it uploads exactly when the batch is not empty, whatever
  the size of the batch and the time elapsed. With 150 fixes queued, a batch size of 100
  and an interval of 30 seconds, the first hundred passes less than 30 seconds after
  the start of the worker and the next fifty less than 30 seconds after the first
  upload, the worker uploads the first 100 fixes on the arrival of the hundredth, holds
  the other 50 when the queue is empty, and uploads them at the next pass, the first
  queue timeout.
\<close>

theorem flush_trigger:
  "(\<forall>item rest. sync_queue w = item # rest \<longrightarrow>
      (flushes cfg p w \<longleftrightarrow>
         batch_size_of cfg \<le> int (length (batch w)) + 1 \<or>
         sync_interval_of cfg \<le> elapsed_seconds (last_sync w) (clock p))) \<and>
   elapsed_seconds (last_sync w) (clock p) =
     ((clock p - last_sync w) mod 86400000000) div 1000000 \<and>
   (\<forall>item rest. sync_queue w = item # rest \<and>
      0 \<le> clock p - last_sync w \<and> clock p - last_sync w < 86400000000 \<longrightarrow>
      (flushes cfg p w \<longleftrightarrow>
         batch_size_of cfg \<le> int (length (batch w)) + 1 \<or>
         sync_interval_of cfg \<le> (clock p - last_sync w) div 1000000)) \<and>
   (sync_queue w = [] \<longrightarrow> (flushes cfg p w \<longleftrightarrow> batch w \<noteq> [])) \<and>
   (\<forall>ds1 d ds2 ps1 p100 ps2 p151 t0.
      length ds1 = 99 \<and> length ds2 = 50 \<and> length ps1 = 99 \<and> length ps2 = 50 \<and>
      upload_ok p100 \<and>
      (\<forall>q \<in> set ps1. t0 \<le> clock q \<and> clock q - t0 < 30000000) \<and>
      (\<forall>q \<in> set ps2.
         clock_after p100 \<le> clock q \<and> clock q - clock_after p100 < 30000000) \<longrightarrow>
      worker_run default_config (ps1 @ [p100] @ ps2)
          (foldl queue_data (new_worker t0) (ds1 @ [d] @ ds2)) =
        \<lparr>sync_queue = [], batch = ds2, last_sync = clock_after p100,
         uploads = [(ds1 @ [d], True)]\<rparr> \<and>
      uploads (worker_run default_config ((ps1 @ [p100] @ ps2) @ [p151])
          (foldl queue_data (new_worker t0) (ds1 @ [d] @ ds2))) =
        [(ds1 @ [d], True), (ds2, upload_ok p151)])"
proof -
  have a: "flushes cfg p w \<longleftrightarrow>
         batch_size_of cfg \<le> int (length (batch w)) + 1 \<or>
         sync_interval_of cfg \<le> elapsed_seconds (last_sync w) (clock p)"
    if "sync_queue w = item # rest" for item rest
    using that by (rule flushes_item)
  have e: "elapsed_seconds (last_sync w) (clock p) =
     ((clock p - last_sync w) mod 86400000000) div 1000000"
    by (simp add: elapsed_seconds_def)
  have r: "flushes cfg p w \<longleftrightarrow>
         batch_size_of cfg \<le> int (length (batch w)) + 1 \<or>
         sync_interval_of cfg \<le> (clock p - last_sync w) div 1000000"
    if "sync_queue w = item # rest" "0 \<le> clock p - last_sync w"
      "clock p - last_sync w < 86400000000" for item rest
    using flushes_item [OF that(1), of cfg p] elapsed_seconds_within_a_day [OF that(2,3)]
    by simp
  have b: "sync_queue w = [] \<longrightarrow> (flushes cfg p w \<longleftrightarrow> batch w \<noteq> [])"
    by (simp add: flushes_empty)
  have d: "worker_run default_config (ps1 @ [p100] @ ps2)
          (foldl queue_data (new_worker t0) (ds1 @ [d] @ ds2)) =
        \<lparr>sync_queue = [], batch = ds2, last_sync = clock_after p100,
         uploads = [(ds1 @ [d], True)]\<rparr> \<and>
      uploads (worker_run default_config ((ps1 @ [p100] @ ps2) @ [p151])
          (foldl queue_data (new_worker t0) (ds1 @ [d] @ ds2))) =
        [(ds1 @ [d], True), (ds2, upload_ok p151)]"
    if h: "length ds1 = 99" "length ds2 = 50" "length ps1 = 99" "length ps2 = 50"
      "upload_ok p100"
      and c1: "\<forall>q \<in> set ps1. t0 \<le> clock q \<and> clock q - t0 < 30000000"
      and c2: "\<forall>q \<in> set ps2.
                 clock_after p100 \<le> clock q \<and> clock q - clock_after p100 < 30000000"
    for ds1 d ds2 ps1 p100 ps2 p151 t0
  proof -
    from c1 have e1: "\<forall>q \<in> set ps1. elapsed_seconds t0 (clock q) < 30"
      by (simp add: elapsed_seconds_under_30)
    from c2 have e2: "\<forall>q \<in> set ps2. elapsed_seconds (clock_after p100) (clock q) < 30"
      by (simp add: elapsed_seconds_under_30)
    note run = burst_of_150 [OF h e1 e2, of d]
    from h(2) have "ds2 \<noteq> []" by auto
    then have "uploads (worker_run default_config ((ps1 @ [p100] @ ps2) @ [p151])
          (foldl queue_data (new_worker t0) (ds1 @ [d] @ ds2))) =
        [(ds1 @ [d], True), (ds2, upload_ok p151)]"
      by (simp only: worker_run_append [of _ "ps1 @ [p100] @ ps2"] run worker_run.simps
          after_burst_timeout if_False)
    with run show ?thesis by simp
  qed
  from a e r b d show ?thesis by blast
qed

text \<open>
  150 sample fixes: 100 passes at 1 s, 50 passes at 1.3 s, then the queue timeout at
  2.3 s, which uploads the 50 fixes left, 1.1 s after the first upload. Outside the
  range: with one fix in the batch, a day and five seconds after \<^verbatim>\<open>last_sync\<close> the
  worker does not upload, and with the clock set back by ten seconds it does.
\<close>

theorem flush_trigger_witness:
  "length (replicate 99 sample_fix) = 99 \<and> length (replicate 50 sample_fix) = 50 \<and>
   length (replicate 99 a_second_later) = 99 \<and> length (replicate 50 soon_after) = 50 \<and>
   upload_ok a_second_later \<and>
   0 \<le> clock a_second_later \<and> clock a_second_later - 0 < 30000000 \<and>
   clock_after a_second_later \<le> clock soon_after \<and>
   clock soon_after - clock_after a_second_later < 30000000 \<and>
   uploads (worker_run default_config
       ((replicate 99 a_second_later @ [a_second_later] @ replicate 50 soon_after) @
        [first_timeout])
       (foldl queue_data (new_worker 0)
          (replicate 99 sample_fix @ [sample_fix] @ replicate 50 sample_fix))) =
     [(replicate 99 sample_fix @ [sample_fix], True), (replicate 50 sample_fix, True)] \<and>
   (clock first_timeout - clock_after a_second_later) div 1000000 = 1 \<and>
   flushes default_config a_second_later idle_worker \<and>
   \<not> flushes default_config a_second_later (queue_data (new_worker 0) sample_fix) \<and>
   \<not> flushes default_config a_day_later (queue_data (new_worker 0) sample_fix) \<and>
   flushes default_config clock_set_back (queue_data (new_worker 0) sample_fix)"
proof -
  have v: "upload_ok a_second_later" "upload_ok first_timeout"
    "0 \<le> clock a_second_later" "clock a_second_later - 0 < 30000000"
    "clock_after a_second_later \<le> clock soon_after"
    "clock soon_after - clock_after a_second_later < 30000000"
    "(clock first_timeout - clock_after a_second_later) div 1000000 = 1"
    by (simp_all add: a_second_later_def soon_after_def first_timeout_def)
  have e1: "\<forall>q \<in> set (replicate 99 a_second_later). 0 \<le> clock q \<and> clock q - 0 < 30000000"
    using v(3,4) by simp
  have e2: "\<forall>q \<in> set (replicate 50 soon_after).
              clock_after a_second_later \<le> clock q \<and>
              clock q - clock_after a_second_later < 30000000"
    using v(5,6) by simp
  have l: "length (replicate 99 sample_fix) = 99" "length (replicate 50 sample_fix) = 50"
   "length (replicate 99 a_second_later) = 99" "length (replicate 50 soon_after) = 50"
    by simp_all
  from flush_trigger [of idle_worker default_config a_second_later] l v(1) e1 e2
  have run: "uploads (worker_run default_config
       ((replicate 99 a_second_later @ [a_second_later] @ replicate 50 soon_after) @
        [first_timeout])
       (foldl queue_data (new_worker 0)
          (replicate 99 sample_fix @ [sample_fix] @ replicate 50 sample_fix))) =
     [(replicate 99 sample_fix @ [sample_fix], True),
      (replicate 50 sample_fix, upload_ok first_timeout)]"
    by blast
  have i: "sync_queue idle_worker = []" "batch idle_worker \<noteq> []"
    by (simp_all add: idle_worker_def)
  from flush_trigger [of idle_worker default_config a_second_later] i
  have f1: "flushes default_config a_second_later idle_worker" by blast
  have q: "sync_queue (queue_data (new_worker 0) sample_fix) =
             \<lparr>item_data = sample_fix, attempts = 0\<rparr> # []"
    "batch (queue_data (new_worker 0) sample_fix) = []"
    "last_sync (queue_data (new_worker 0) sample_fix) = 0"
    by (simp_all add: queue_data_def new_worker_def)
  have t: "flushes default_config p (queue_data (new_worker 0) sample_fix) \<longleftrightarrow>
             30 \<le> elapsed_seconds 0 (clock p)" for p
  proof -
    from flush_trigger [of "queue_data (new_worker 0) sample_fix" default_config p] q(1)
    have "flushes default_config p (queue_data (new_worker 0) sample_fix) \<longleftrightarrow>
      batch_size_of default_config \<le>
        int (length (batch (queue_data (new_worker 0) sample_fix))) + 1 \<or>
      sync_interval_of default_config \<le>
        elapsed_seconds (last_sync (queue_data (new_worker 0) sample_fix)) (clock p)"
      by blast
    with q(2,3) show ?thesis by (simp add: default_config_values)
  qed
  have c: "clock a_second_later = 1000000" "clock a_day_later = 86405000000"
    "clock clock_set_back = - 10000000"
    by (simp_all add: a_second_later_def a_day_later_def clock_set_back_def)
  have f2: "\<not> flushes default_config a_second_later (queue_data (new_worker 0) sample_fix)"
    by (simp add: t c elapsed_seconds_def)
  have f3: "\<not> flushes default_config a_day_later (queue_data (new_worker 0) sample_fix)"
    by (simp add: t c elapsed_seconds_after_a_day)
  have f4: "flushes default_config clock_set_back (queue_data (new_worker 0) sample_fix)"
    by (simp add: t c elapsed_seconds_clock_set_back)
  from run v f1 f2 f3 f4 show ?thesis by simp
qed

text \<open>
  The claim as stated has the worker upload exactly when the batch has reached the
  batch size or the interval has elapsed. A worker that holds 50 fixes, with an empty
  queue, uploads one second after its last upload.
\<close>

theorem timeout_flush_counterexample:
  "flushes default_config a_second_later idle_worker \<and>
   \<not> (batch_size_of default_config \<le> int (length (batch idle_worker)) \<or>
      sync_interval_of default_config \<le>
        (clock a_second_later - last_sync idle_worker) div 1000000)"
  by (simp add: flushes_empty idle_worker_def default_config_values a_second_later_def)

end
